theory Spec2Isabelle
  imports Main
begin

section \<open>Package reprox: destinations, registry and dispatcher\<close>

text \<open>
  A \<open>*httputil.ReverseProxy\<close> is a pointer to a heap object.  The heap of the
  reverse proxies constructed so far is the list \<open>proxies\<close> of a world; a handle
  is the index of one of them, and the entry is the target URL the proxy was
  built for.  Two handles are the same object exactly when they are the same index.
\<close>

type_synonym handle = nat

record tDestination =
  destHost :: string
  destProxy :: "handle option"

type_synonym tBackendServers = "string \<rightharpoonup> tDestination"

text \<open>
  Two functions of Go's standard library are called by the package and are not
  part of the repository; they are parameters of the model.
  \<^item> \<open>ParseRequestURI\<close> is \<open>url.ParseRequestURI\<close>: \<open>Inl err\<close> is the error
    result, \<open>Inr u\<close> the parsed URL.
  \<^item> \<open>Quote\<close> is the formatting that \<open>fmt.Sprintf\<close> applies for the verb
    \<open>%q\<close> to a string.
\<close>

record 'u stdlib =
  ParseRequestURI :: "string \<Rightarrow> string + 'u"
  Quote :: "string \<Rightarrow> string"

text \<open>
  The state the package reads and writes:
  \<^item> \<open>backendServers\<close>: the map held by \<open>TProxyHandler\<close> (a Go map is a
    reference, so the value receiver of \<open>ServeHTTP\<close> shares it);
  \<^item> \<open>proxies\<close>: the reverse proxies constructed so far;
  \<^item> \<open>errlog\<close>: the calls of \<open>apachelogger.Err\<close>, as (sender, message);
  \<^item> \<open>stores\<close>: the keys of the map assignments executed so far, in order.
\<close>

record 'u world =
  backendServers :: tBackendServers
  proxies :: "'u list"
  errlog :: "(string \<times> string) list"
  stores :: "string list"

text \<open>
  The outcome of one call of \<open>ServeHTTP\<close>: either \<open>http.Error\<close> was called with a
  status code and a message, or the request was passed to \<open>ServeHTTP\<close> of a
  reverse proxy, which produces the response.
\<close>

datatype response = HttpError nat string | Delegated handle

definition createReverseProxy ::
  "'u stdlib \<Rightarrow> tDestination \<Rightarrow> 'u world \<Rightarrow> (string + handle) \<times> 'u world" where
  "createReverseProxy lib aDestination w =
     (case destProxy aDestination of
        Some p \<Rightarrow> (Inr p, w)
      | None \<Rightarrow>
          (case ParseRequestURI lib (destHost aDestination) of
             Inl err \<Rightarrow>
               (Inl err,
                w\<lparr>errlog := errlog w @
                   [(''ReProx/createReverseProxy'',
                     ''Internal Server Error ['' @ destHost aDestination @ '']'')]\<rparr>)
           | Inr targetURL \<Rightarrow>
               (Inr (length (proxies w)), w\<lparr>proxies := proxies w @ [targetURL]\<rparr>)))"

definition initBackendList :: tBackendServers where
  "initBackendList =
     [''bla.mwat.de'' \<mapsto> \<lparr>destHost = ''http://192.168.192.236:8181'', destProxy = None\<rparr>,
      ''bla.mwat.de:80'' \<mapsto> \<lparr>destHost = ''http://192.168.192.236:8181'', destProxy = None\<rparr>,
      ''bla.mwat.de:443'' \<mapsto> \<lparr>destHost = ''http://192.168.192.236:8181'', destProxy = None\<rparr>,
      ''read.mwat.de'' \<mapsto> \<lparr>destHost = ''http://192.168.192.236:8383'', destProxy = None\<rparr>,
      ''read.mwat.de:80'' \<mapsto> \<lparr>destHost = ''http://192.168.192.236:8383'', destProxy = None\<rparr>,
      ''read.mwat.de:443'' \<mapsto> \<lparr>destHost = ''http://192.168.192.236:8383'', destProxy = None\<rparr>]"

text \<open>
  \<open>ServeHTTP\<close>; of the request only \<open>aRequest.Host\<close> is read before the
  request is handed to the reverse proxy.
\<close>

definition ServeHTTP :: "'u stdlib \<Rightarrow> string \<Rightarrow> 'u world \<Rightarrow> response \<times> 'u world" where
  "ServeHTTP lib host w =
     (case backendServers w host of
        None \<Rightarrow>
          (let msg = ''Backend server '' @ Quote lib host @ '' not found''
           in (HttpError 404 msg, w\<lparr>errlog := errlog w @ [(''ReProx/ServeHTTP'', msg)]\<rparr>))
      | Some target \<Rightarrow>
          (case createReverseProxy lib target w of
             (Inl err, w1) \<Rightarrow> (HttpError 500 ''Internal Server Error'', w1)
           | (Inr proxy, w1) \<Rightarrow>
               (Delegated proxy,
                w1\<lparr>backendServers :=
                     (backendServers w1)(host \<mapsto> target\<lparr>destProxy := Some proxy\<rparr>),
                   stores := stores w1 @ [host]\<rparr>)))"

definition NewProxyHandler :: "'u world" where
  "NewProxyHandler =
     \<lparr>backendServers = initBackendList, proxies = [], errlog = [], stores = []\<rparr>"

text \<open>
  Requests handled one after the other: each call of \<open>ServeHTTP\<close> returns
  before the next one starts.
\<close>

fun serveSeq :: "'u stdlib \<Rightarrow> string list \<Rightarrow> 'u world \<Rightarrow> response list \<times> 'u world" where
  "serveSeq lib [] w = ([], w)"
| "serveSeq lib (host # hosts) w =
     (case ServeHTTP lib host w of
        (r, w1) \<Rightarrow> (case serveSeq lib hosts w1 of (rs, w2) \<Rightarrow> (r # rs, w2)))"

text \<open>
  Two predicates on worlds.  \<open>noHandles\<close>: the registry as it is right after
  startup, no destination has a reverse proxy yet.  \<open>handlesValid\<close>: every handle
  stored in the registry is a constructed proxy, built for the URL that
  \<open>destHost\<close> parses to.
\<close>

definition noHandles :: "'u world \<Rightarrow> bool" where
  "noHandles w \<longleftrightarrow> (\<forall>h d. backendServers w h = Some d \<longrightarrow> destProxy d = None)"

definition handlesValid :: "'u stdlib \<Rightarrow> 'u world \<Rightarrow> bool" where
  "handlesValid lib w \<longleftrightarrow>
     (\<forall>h d p. backendServers w h = Some d \<longrightarrow> destProxy d = Some p \<longrightarrow>
        p < length (proxies w) \<and> ParseRequestURI lib (destHost d) = Inr (proxies w ! p))"

text \<open>
  A stand-in for the two library functions, used only to run the model on
  concrete inputs.  On the strings used below it agrees with Go: the empty string
  is rejected by \<open>url.ParseRequestURI\<close> (the error prints as
  \<open>parse "": empty url\<close>), the \<open>http://\<close> URLs are accepted, and \<open>%q\<close>
  of a string of plain letters, digits, dots and colons puts it between double
  quotes.  A parsed URL is represented by the string it was parsed from.
\<close>

definition sampleLib :: "string stdlib" where
  "sampleLib =
     \<lparr>ParseRequestURI =
        (\<lambda>s. if s = [] then Inl (''parse '' @ [CHR 0x22, CHR 0x22] @ '': empty url'')
             else Inr s),
      Quote = (\<lambda>s. [CHR 0x22] @ s @ [CHR 0x22])\<rparr>"

text \<open>
  A registry with one destination whose URL is empty and one whose URL parses.
\<close>

definition twoHosts :: "string world" where
  "twoHosts =
     \<lparr>backendServers =
        [''bad.example'' \<mapsto> \<lparr>destHost = [], destProxy = None\<rparr>,
         ''bla.mwat.de'' \<mapsto> \<lparr>destHost = ''http://192.168.192.236:8181'', destProxy = None\<rparr>],
      proxies = [], errlog = [], stores = []\<rparr>"

subsection \<open>Calls of ServeHTTP that overlap\<close>

text \<open>
  \<open>net/http\<close> runs \<open>ServeHTTP\<close> in a goroutine of its own for every
  connection, and \<open>ServeHTTP\<close> takes no lock.  A call is a task that stands at
  one of three program points or has returned; what it holds in local variables is part of the
  task (\<open>target\<close> is a copy of the map's entry, \<open>proxy\<close> the result of
  \<open>createReverseProxy\<close>).
  \<^item> \<open>AtLookup host\<close>: before the map read \<open>ph.backendServers[aRequest.Host]\<close>;
  \<^item> \<open>AtCreate host target\<close>: the entry was found, before the call of
    \<open>createReverseProxy\<close>;
  \<^item> \<open>AtStore host target proxy\<close>: no error, before the map assignment and the
    call of \<open>proxy.ServeHTTP\<close>;
  \<^item> \<open>Finished r\<close>: the call has returned.

  Each step accesses the shared map at most once (one read or one assignment),
  so running whole steps in some order covers the executions in which the single
  accesses do not overlap in time.
\<close>

datatype task =
  AtLookup string
  | AtCreate string tDestination
  | AtStore string tDestination handle
  | Finished response

fun step :: "'u stdlib \<Rightarrow> task \<Rightarrow> 'u world \<Rightarrow> task \<times> 'u world" where
  "step lib (AtLookup host) w =
     (case backendServers w host of
        None \<Rightarrow>
          (let msg = ''Backend server '' @ Quote lib host @ '' not found''
           in (Finished (HttpError 404 msg),
               w\<lparr>errlog := errlog w @ [(''ReProx/ServeHTTP'', msg)]\<rparr>))
      | Some target \<Rightarrow> (AtCreate host target, w))"
| "step lib (AtCreate host target) w =
     (case createReverseProxy lib target w of
        (Inl err, w1) \<Rightarrow> (Finished (HttpError 500 ''Internal Server Error''), w1)
      | (Inr proxy, w1) \<Rightarrow> (AtStore host target proxy, w1))"
| "step lib (AtStore host target proxy) w =
     (Finished (Delegated proxy),
      w\<lparr>backendServers := (backendServers w)(host \<mapsto> target\<lparr>destProxy := Some proxy\<rparr>),
        stores := stores w @ [host]\<rparr>)"
| "step lib (Finished r) w = (Finished r, w)"

text \<open>
  A schedule is the list of the tasks' indices in the order in which they take
  a step; an index that names no task is skipped.
\<close>

fun interleave :: "'u stdlib \<Rightarrow> nat list \<Rightarrow> task list \<Rightarrow> 'u world \<Rightarrow> task list \<times> 'u world" where
  "interleave lib [] ts w = (ts, w)"
| "interleave lib (i # sched) ts w =
     (if i < length ts
      then (case step lib (ts ! i) w of (t, w1) \<Rightarrow> interleave lib sched (ts[i := t]) w1)
      else interleave lib sched ts w)"

text \<open>
  Bookkeeping for runs in which all tasks are requests for one host \<open>host\<close>
  whose \<open>destHost\<close> is \<open>url\<close>.  \<open>pastCreate\<close>: the task has called
  \<open>createReverseProxy\<close> already.  \<open>taskOk host url lo hi\<close>: what the task
  holds in its local variables is about this host, and every handle it holds
  was constructed during the run, that is, lies between \<open>lo\<close> (the number of
  proxies before the run) and \<open>hi\<close> (their number now).
\<close>

fun pastCreate :: "task \<Rightarrow> bool" where
  "pastCreate (AtLookup host) = False"
| "pastCreate (AtCreate host target) = False"
| "pastCreate (AtStore host target proxy) = True"
| "pastCreate (Finished r) = True"

fun handleIn :: "nat \<Rightarrow> nat \<Rightarrow> handle option \<Rightarrow> bool" where
  "handleIn lo hi None = True"
| "handleIn lo hi (Some p) = (lo \<le> p \<and> p < hi)"

fun taskOk :: "string \<Rightarrow> string \<Rightarrow> nat \<Rightarrow> nat \<Rightarrow> task \<Rightarrow> bool" where
  "taskOk host url lo hi (AtLookup h) = (h = host)"
| "taskOk host url lo hi (AtCreate h target) =
     (h = host \<and> destHost target = url \<and> handleIn lo hi (destProxy target))"
| "taskOk host url lo hi (AtStore h target proxy) =
     (h = host \<and> destHost target = url \<and> lo \<le> proxy \<and> proxy < hi)"
| "taskOk host url lo hi (Finished (Delegated proxy)) = (lo \<le> proxy \<and> proxy < hi)"
| "taskOk host url lo hi (Finished (HttpError code msg)) = False"

definition runInv :: "string \<Rightarrow> string \<Rightarrow> 'u \<Rightarrow> nat \<Rightarrow> task list \<Rightarrow> 'u world \<Rightarrow> bool" where
  "runInv host url u lo ts w \<longleftrightarrow>
     list_all (taskOk host url lo (length (proxies w))) ts
     \<and> lo \<le> length (proxies w)
     \<and> length (proxies w) \<le> lo + length (filter pastCreate ts)
     \<and> (\<forall>p. lo \<le> p \<and> p < length (proxies w) \<longrightarrow> proxies w ! p = u)
     \<and> (\<exists>d. backendServers w host = Some d \<and> destHost d = url
            \<and> handleIn lo (length (proxies w)) (destProxy d))"

text \<open>The schedule that runs task 0 to its end, then task 1, and so on.\<close>

definition serial :: "nat \<Rightarrow> nat list" where
  "serial n = concat (map (\<lambda>i. [i, i, i]) [0..<n])"

section \<open>Package main: servers, TLS configuration and shutdown\<close>

text \<open>
  The cipher suites and protocol versions are constants of \<open>crypto/tls\<close>; the
  ones the program names are the constructors below.
\<close>

datatype cipherSuite =
  TLS_ECDHE_RSA_WITH_CHACHA20_POLY1305_SHA256
  | TLS_ECDHE_ECDSA_WITH_AES_256_GCM_SHA384
  | TLS_ECDHE_RSA_WITH_AES_256_GCM_SHA384
  | TLS_ECDHE_ECDSA_WITH_AES_128_GCM_SHA256
  | TLS_ECDHE_RSA_WITH_AES_128_GCM_SHA256
  | TLS_ECDHE_RSA_WITH_AES_128_CBC_SHA256
  | TLS_ECDHE_ECDSA_WITH_AES_128_CBC_SHA256
  | TLS_ECDHE_RSA_WITH_AES_256_CBC_SHA
  | TLS_ECDHE_RSA_WITH_AES_128_CBC_SHA
  | TLS_ECDHE_RSA_WITH_3DES_EDE_CBC_SHA
  | TLS_ECDHE_RSA_WITH_RC4_128_SHA
  | TLS_ECDHE_ECDSA_WITH_AES_256_CBC_SHA
  | TLS_ECDHE_ECDSA_WITH_AES_128_CBC_SHA
  | TLS_ECDHE_ECDSA_WITH_RC4_128_SHA
  | TLS_RSA_WITH_AES_256_GCM_SHA384
  | TLS_RSA_WITH_AES_128_GCM_SHA256
  | TLS_RSA_WITH_AES_128_CBC_SHA256
  | TLS_RSA_WITH_AES_256_CBC_SHA
  | TLS_RSA_WITH_AES_128_CBC_SHA
  | TLS_RSA_WITH_3DES_EDE_CBC_SHA
  | TLS_RSA_WITH_RC4_128_SHA
  | TLS_ECDHE_ECDSA_WITH_CHACHA20_POLY1305_SHA256

datatype tlsVersion = VersionTLS10 | VersionTLS11 | VersionTLS12 | VersionTLS13

text \<open>The values of the version constants, as \<open>crypto/tls\<close> declares them.\<close>

fun versionCode :: "tlsVersion \<Rightarrow> nat" where
  "versionCode VersionTLS10 = 0x0301"
| "versionCode VersionTLS11 = 0x0302"
| "versionCode VersionTLS12 = 0x0303"
| "versionCode VersionTLS13 = 0x0304"

record tlsConfig =
  MaxVersion :: tlsVersion
  MinVersion :: tlsVersion
  PreferServerCipherSuites :: bool
  CipherSuites :: "cipherSuite list"

text \<open>
  The fields of \<open>http.Server\<close> that \<open>createServ\<close> sets to plain data; a
  \<open>time.Duration\<close> is a number of nanoseconds.  \<open>BaseContext\<close> (a closure over
  a context) is left out.  The call \<open>setupSignals(server)\<close> starts the goroutine
  modelled by \<open>signalHandler\<close> below and changes no field at that time.
\<close>

record 'h server =
  Addr :: string
  Handler :: 'h
  IdleTimeout :: int
  ReadHeaderTimeout :: int
  ReadTimeout :: int
  WriteTimeout :: int
  TLSConfig :: "tlsConfig option"

definition Second :: int where
  "Second = 1000000000"

definition createServ :: "'h \<Rightarrow> string \<Rightarrow> 'h server" where
  "createServ aHandler aPort =
     \<lparr>Addr = (if 0 = length aPort then '':80'' else aPort),
      Handler = aHandler,
      IdleTimeout = 0,
      ReadHeaderTimeout = 10 * Second,
      ReadTimeout = 10 * Second,
      WriteTimeout = - 1,
      TLSConfig = None\<rparr>"

definition createServer443 :: "'h \<Rightarrow> 'h server" where
  "createServer443 aHandler =
     (createServ aHandler '':443'')
       \<lparr>TLSConfig := Some
          \<lparr>MaxVersion = VersionTLS12,
           MinVersion = VersionTLS10,
           PreferServerCipherSuites = True,
           CipherSuites =
             [TLS_ECDHE_RSA_WITH_CHACHA20_POLY1305_SHA256,
              TLS_ECDHE_ECDSA_WITH_AES_256_GCM_SHA384,
              TLS_ECDHE_RSA_WITH_AES_256_GCM_SHA384,
              TLS_ECDHE_ECDSA_WITH_AES_128_GCM_SHA256,
              TLS_ECDHE_RSA_WITH_AES_128_GCM_SHA256,
              TLS_ECDHE_RSA_WITH_AES_128_CBC_SHA256,
              TLS_ECDHE_ECDSA_WITH_AES_128_CBC_SHA256,
              TLS_ECDHE_RSA_WITH_AES_256_CBC_SHA,
              TLS_ECDHE_RSA_WITH_AES_128_CBC_SHA,
              TLS_ECDHE_RSA_WITH_3DES_EDE_CBC_SHA,
              TLS_ECDHE_RSA_WITH_RC4_128_SHA,
              TLS_ECDHE_ECDSA_WITH_AES_256_CBC_SHA,
              TLS_ECDHE_ECDSA_WITH_AES_128_CBC_SHA,
              TLS_ECDHE_ECDSA_WITH_RC4_128_SHA,
              TLS_RSA_WITH_AES_256_GCM_SHA384,
              TLS_RSA_WITH_AES_128_GCM_SHA256,
              TLS_RSA_WITH_AES_128_CBC_SHA256,
              TLS_RSA_WITH_AES_256_CBC_SHA,
              TLS_RSA_WITH_AES_128_CBC_SHA,
              TLS_RSA_WITH_3DES_EDE_CBC_SHA,
              TLS_RSA_WITH_RC4_128_SHA,
              TLS_ECDHE_ECDSA_WITH_CHACHA20_POLY1305_SHA256]\<rparr>\<rparr>"

definition createServer80 :: "'h \<Rightarrow> 'h server" where
  "createServer80 aHandler = createServ aHandler '':80''"

text \<open>The cipher-suite list a server offers; none without a TLS configuration.\<close>

definition cipherSuitesOf :: "'h server \<Rightarrow> cipherSuite list" where
  "cipherSuitesOf srv = (case TLSConfig srv of None \<Rightarrow> [] | Some c \<Rightarrow> CipherSuites c)"

text \<open>
  The bulk cipher a suite's identifier names.  The suites with AES-GCM or
  ChaCha20-Poly1305 are the authenticated-encryption ones; those with RC4, 3DES
  or a CBC mode are the legacy ones.
\<close>

datatype bulkCipher = CHACHA20_POLY1305 | AES_GCM | AES_CBC | TripleDES_EDE_CBC | RC4

fun bulk :: "cipherSuite \<Rightarrow> bulkCipher" where
  "bulk TLS_ECDHE_RSA_WITH_CHACHA20_POLY1305_SHA256 = CHACHA20_POLY1305"
| "bulk TLS_ECDHE_ECDSA_WITH_AES_256_GCM_SHA384 = AES_GCM"
| "bulk TLS_ECDHE_RSA_WITH_AES_256_GCM_SHA384 = AES_GCM"
| "bulk TLS_ECDHE_ECDSA_WITH_AES_128_GCM_SHA256 = AES_GCM"
| "bulk TLS_ECDHE_RSA_WITH_AES_128_GCM_SHA256 = AES_GCM"
| "bulk TLS_ECDHE_RSA_WITH_AES_128_CBC_SHA256 = AES_CBC"
| "bulk TLS_ECDHE_ECDSA_WITH_AES_128_CBC_SHA256 = AES_CBC"
| "bulk TLS_ECDHE_RSA_WITH_AES_256_CBC_SHA = AES_CBC"
| "bulk TLS_ECDHE_RSA_WITH_AES_128_CBC_SHA = AES_CBC"
| "bulk TLS_ECDHE_RSA_WITH_3DES_EDE_CBC_SHA = TripleDES_EDE_CBC"
| "bulk TLS_ECDHE_RSA_WITH_RC4_128_SHA = RC4"
| "bulk TLS_ECDHE_ECDSA_WITH_AES_256_CBC_SHA = AES_CBC"
| "bulk TLS_ECDHE_ECDSA_WITH_AES_128_CBC_SHA = AES_CBC"
| "bulk TLS_ECDHE_ECDSA_WITH_RC4_128_SHA = RC4"
| "bulk TLS_RSA_WITH_AES_256_GCM_SHA384 = AES_GCM"
| "bulk TLS_RSA_WITH_AES_128_GCM_SHA256 = AES_GCM"
| "bulk TLS_RSA_WITH_AES_128_CBC_SHA256 = AES_CBC"
| "bulk TLS_RSA_WITH_AES_256_CBC_SHA = AES_CBC"
| "bulk TLS_RSA_WITH_AES_128_CBC_SHA = AES_CBC"
| "bulk TLS_RSA_WITH_3DES_EDE_CBC_SHA = TripleDES_EDE_CBC"
| "bulk TLS_RSA_WITH_RC4_128_SHA = RC4"
| "bulk TLS_ECDHE_ECDSA_WITH_CHACHA20_POLY1305_SHA256 = CHACHA20_POLY1305"

fun aead :: "cipherSuite \<Rightarrow> bool" where
  "aead c = (bulk c = CHACHA20_POLY1305 \<or> bulk c = AES_GCM)"

fun legacy :: "cipherSuite \<Rightarrow> bool" where
  "legacy c = (bulk c = AES_CBC \<or> bulk c = TripleDES_EDE_CBC \<or> bulk c = RC4)"

text \<open>
  The key exchange a suite's identifier names: the part between \<open>TLS_\<close> and
  \<open>_WITH_\<close>.  The two ECDHE ones are the forward-secret ones.
\<close>

datatype keyExchange = ECDHE_RSA | ECDHE_ECDSA | RSA

fun kx :: "cipherSuite \<Rightarrow> keyExchange" where
  "kx TLS_ECDHE_RSA_WITH_CHACHA20_POLY1305_SHA256 = ECDHE_RSA"
| "kx TLS_ECDHE_ECDSA_WITH_AES_256_GCM_SHA384 = ECDHE_ECDSA"
| "kx TLS_ECDHE_RSA_WITH_AES_256_GCM_SHA384 = ECDHE_RSA"
| "kx TLS_ECDHE_ECDSA_WITH_AES_128_GCM_SHA256 = ECDHE_ECDSA"
| "kx TLS_ECDHE_RSA_WITH_AES_128_GCM_SHA256 = ECDHE_RSA"
| "kx TLS_ECDHE_RSA_WITH_AES_128_CBC_SHA256 = ECDHE_RSA"
| "kx TLS_ECDHE_ECDSA_WITH_AES_128_CBC_SHA256 = ECDHE_ECDSA"
| "kx TLS_ECDHE_RSA_WITH_AES_256_CBC_SHA = ECDHE_RSA"
| "kx TLS_ECDHE_RSA_WITH_AES_128_CBC_SHA = ECDHE_RSA"
| "kx TLS_ECDHE_RSA_WITH_3DES_EDE_CBC_SHA = ECDHE_RSA"
| "kx TLS_ECDHE_RSA_WITH_RC4_128_SHA = ECDHE_RSA"
| "kx TLS_ECDHE_ECDSA_WITH_AES_256_CBC_SHA = ECDHE_ECDSA"
| "kx TLS_ECDHE_ECDSA_WITH_AES_128_CBC_SHA = ECDHE_ECDSA"
| "kx TLS_ECDHE_ECDSA_WITH_RC4_128_SHA = ECDHE_ECDSA"
| "kx TLS_RSA_WITH_AES_256_GCM_SHA384 = RSA"
| "kx TLS_RSA_WITH_AES_128_GCM_SHA256 = RSA"
| "kx TLS_RSA_WITH_AES_128_CBC_SHA256 = RSA"
| "kx TLS_RSA_WITH_AES_256_CBC_SHA = RSA"
| "kx TLS_RSA_WITH_AES_128_CBC_SHA = RSA"
| "kx TLS_RSA_WITH_3DES_EDE_CBC_SHA = RSA"
| "kx TLS_RSA_WITH_RC4_128_SHA = RSA"
| "kx TLS_ECDHE_ECDSA_WITH_CHACHA20_POLY1305_SHA256 = ECDHE_ECDSA"

fun ecdhe :: "cipherSuite \<Rightarrow> bool" where
  "ecdhe c = (kx c = ECDHE_RSA \<or> kx c = ECDHE_ECDSA)"

text \<open>
  A list has the authenticated-encryption suites first and the legacy suites
  last when nothing but legacy suites is left after its leading
  authenticated-encryption suites.
\<close>

definition aeadFirstLegacyLast :: "cipherSuite list \<Rightarrow> bool" where
  "aeadFirstLegacyLast cs \<longleftrightarrow> list_all legacy (dropWhile aead cs)"

text \<open>
  What the process has written and whether it has ended:
  \<open>apacheErr\<close> the calls of \<open>apachelogger.Err\<close>, \<open>stdLog\<close> the lines written
  by the \<open>log\<close> package, \<open>exitStatus\<close> the status given to \<open>os.Exit\<close>.
  \<open>log.Fatalln\<close> writes its line and calls \<open>os.Exit(1)\<close>.
\<close>

record process =
  apacheErr :: "(string \<times> string) list"
  stdLog :: "string list"
  exitStatus :: "int option"

definition exit :: "string \<Rightarrow> process \<Rightarrow> process" where
  "exit aMessage p =
     p\<lparr>apacheErr := apacheErr p @ [(''ReProx/main'', aMessage)],
       stdLog := stdLog p @ [aMessage],
       exitStatus := Some 1\<rparr>"

text \<open>
  The goroutine that \<open>setupSignals\<close> starts, from the moment a signal has
  arrived on the channel.  \<open>signal\<close> is the signal as \<open>%v\<close> prints it;
  \<open>shutdownErr\<close> is what \<open>aServer.Shutdown(ctxTimeout)\<close> returns, \<open>None\<close> for
  nil and \<open>Some e\<close> for an error that prints as \<open>e\<close>.
\<close>

definition signalHandler :: "string \<Rightarrow> string \<Rightarrow> string option \<Rightarrow> process \<Rightarrow> process" where
  "signalHandler gMe signal shutdownErr p =
     (let msg = gMe @ '' captured '' @ [CHR 0x27] @ signal @ [CHR 0x27]
                  @ '', stopping program and exiting ...'';
          p1 = p\<lparr>apacheErr := apacheErr p @ [(''ReProx/catchSignals'', msg)],
                 stdLog := stdLog p @ [msg]\<rparr>
      in case shutdownErr of
           None \<Rightarrow> p1
         | Some err \<Rightarrow> exit (gMe @ '': '' @ err) p1)"

subsection \<open>The running process: signals, Shutdown and the end of main\<close>

text \<open>
  \<open>setupSignals\<close> has the two signals \<open>SIGINT\<close> and \<open>SIGTERM\<close> sent to the
  channel \<open>c\<close>; no other signal reaches the program's code.  \<open>sigString\<close> is
  how \<open>%v\<close> prints them.
\<close>

datatype signal = SIGINT | SIGTERM

fun sigString :: "signal \<Rightarrow> string" where
  "sigString SIGINT = ''interrupt''"
| "sigString SIGTERM = ''terminated''"

text \<open>The states of a listener, as the specification names them.\<close>

datatype lifecycle = Listening | Draining | Closed

text \<open>
  The two goroutines that decide when the process ends.
  \<^item> The goroutine started by \<open>setupSignals\<close>: it waits for a signal on the
    channel (\<open>AwaitSignal\<close>), then calls \<open>aServer.Shutdown(ctxTimeout)\<close> with a
    context that expires \<open>time.Second*10\<close> after it was made
    (\<open>InShutdown deadline\<close>), until \<open>Shutdown\<close> has returned (\<open>SigReturned\<close>).
  \<^item> The goroutine started by \<open>main\<close>: it is inside
    \<open>server80.ListenAndServe()\<close> (\<open>InListenAndServe\<close>) until that call returns
    an error; the error is the argument of \<open>exit\<close>, which is called next
    (\<open>ListenAndServeReturned err\<close>).
\<close>

datatype signalPc = AwaitSignal | InShutdown int | SigReturned

datatype servePc = InListenAndServe | ListenAndServeReturned string

text \<open>
  The process and its one server: what was logged and whether the process has
  ended (\<open>proc\<close>), the state of the listener, the number of requests in flight,
  the time in nanoseconds, the content of the channel \<open>c\<close> (capacity 2), where
  the two goroutines stand, and the error that closing the listener gives
  (\<open>None\<close> for nil).
\<close>

record system =
  proc :: process
  phase :: lifecycle
  inflight :: nat
  now :: int
  sigChan :: "signal list"
  sigPc :: signalPc
  servePc :: servePc
  closeErr :: "string option"

text \<open>
  What can happen next: the operating system delivers a signal, a request is
  accepted, a request in flight completes, time passes, or one of the two
  goroutines is scheduled.
\<close>

datatype event =
  Deliver signal
  | Accept
  | Complete
  | Elapse int
  | RunSignalGoroutine
  | RunServeGoroutine

text \<open>
  The goroutine of \<open>setupSignals\<close> takes a signal from the channel: it logs the
  message and calls \<open>Shutdown\<close>.  As the documentation of \<open>net/http\<close> has it,
  \<open>Shutdown\<close> first closes the listeners, and once it is called
  \<open>ListenAndServe\<close> returns \<open>ErrServerClosed\<close> at once (it prints as
  \<open>http: Server closed\<close>).
\<close>

definition receiveSignal :: "string \<Rightarrow> signal \<Rightarrow> signal list \<Rightarrow> system \<Rightarrow> system" where
  "receiveSignal gMe sg rest s =
     s\<lparr>proc := signalHandler gMe (sigString sg) None (proc s),
       sigChan := rest,
       phase := Draining,
       servePc := ListenAndServeReturned ''http: Server closed'',
       sigPc := InShutdown (now s + 10 * Second)\<rparr>"

text \<open>
  \<open>Shutdown\<close> returns: with nil the goroutine ends, with an error it calls
  \<open>exit\<close>.
\<close>

definition shutdownReturns :: "string \<Rightarrow> string option \<Rightarrow> system \<Rightarrow> system" where
  "shutdownReturns gMe err s =
     (case err of
        None \<Rightarrow> s\<lparr>phase := Closed, sigPc := SigReturned\<rparr>
      | Some e \<Rightarrow>
          s\<lparr>proc := exit (gMe @ '': '' @ e) (proc s), phase := Closed, sigPc := SigReturned\<rparr>)"

text \<open>
  One step of the goroutine of \<open>setupSignals\<close>.  Inside \<open>Shutdown\<close>, again as
  documented: it waits until no connection is active and then returns the error
  of closing the listener; if the context expires before that, it returns the
  context's error (it prints as \<open>context deadline exceeded\<close>).
\<close>

definition signalGoroutine :: "string \<Rightarrow> system \<Rightarrow> system" where
  "signalGoroutine gMe s =
     (case sigPc s of
        AwaitSignal \<Rightarrow>
          (case sigChan s of
             [] \<Rightarrow> s
           | sg # rest \<Rightarrow> receiveSignal gMe sg rest s)
      | InShutdown deadline \<Rightarrow>
          (if inflight s = 0 then shutdownReturns gMe (closeErr s) s
           else if deadline \<le> now s
             then shutdownReturns gMe (Some ''context deadline exceeded'') s
           else s)
      | SigReturned \<Rightarrow> s)"

text \<open>
  One step of the goroutine of \<open>main\<close>:
  \<open>exit(fmt.Sprintf("%s: %v", gMe, server80.ListenAndServe()))\<close>.  While
  \<open>ListenAndServe\<close> has not returned it waits; once it has, \<open>exit\<close> is called
  with the error, whatever the error is.
\<close>

definition mainGoroutine :: "string \<Rightarrow> system \<Rightarrow> system" where
  "mainGoroutine gMe s =
     (case servePc s of
        InListenAndServe \<Rightarrow> s
      | ListenAndServeReturned err \<Rightarrow>
          s\<lparr>proc := exit (gMe @ '': '' @ err) (proc s), phase := Closed\<rparr>)"

text \<open>
  The effect of an event.  After \<open>os.Exit\<close> nothing happens any more: the
  requests then in flight are never completed.  A signal is dropped when the
  channel is full; a connection is accepted only while the listener is open.
\<close>

fun react :: "string \<Rightarrow> event \<Rightarrow> system \<Rightarrow> system" where
  "react gMe ev s =
     (if exitStatus (proc s) \<noteq> None then s
      else (case ev of
              Deliver sg \<Rightarrow> (if length (sigChan s) < 2 then s\<lparr>sigChan := sigChan s @ [sg]\<rparr> else s)
            | Accept \<Rightarrow> (if phase s = Listening then s\<lparr>inflight := Suc (inflight s)\<rparr> else s)
            | Complete \<Rightarrow> (if 0 < inflight s then s\<lparr>inflight := inflight s - 1\<rparr> else s)
            | Elapse d \<Rightarrow> (if 0 \<le> d then s\<lparr>now := now s + d\<rparr> else s)
            | RunSignalGoroutine \<Rightarrow> signalGoroutine gMe s
            | RunServeGoroutine \<Rightarrow> mainGoroutine gMe s))"

fun runEvents :: "string \<Rightarrow> event list \<Rightarrow> system \<Rightarrow> system" where
  "runEvents gMe [] s = s"
| "runEvents gMe (ev # evs) s = runEvents gMe evs (react gMe ev s)"

text \<open>
  The process when \<open>main\<close> has written its line and the server listens:
  no request yet, no signal yet.
\<close>

definition listening :: "string \<Rightarrow> system" where
  "listening gMe =
     \<lparr>proc = \<lparr>apacheErr = [], stdLog = [gMe @ '' listening HTTP at :80''], exitStatus = None\<rparr>,
      phase = Listening, inflight = 0, now = 0, sigChan = [],
      sigPc = AwaitSignal, servePc = InListenAndServe, closeErr = None\<rparr>"

section \<open>Properties of createReverseProxy\<close>

lemma createReverseProxy_cached:
  "destProxy d = Some p \<Longrightarrow> createReverseProxy lib d w = (Inr p, w)"
  by (simp add: createReverseProxy_def)

lemma createReverseProxy_error:
  "destProxy d = None \<Longrightarrow> ParseRequestURI lib (destHost d) = Inl e \<Longrightarrow>
   createReverseProxy lib d w =
     (Inl e, w\<lparr>errlog := errlog w @
        [(''ReProx/createReverseProxy'', ''Internal Server Error ['' @ destHost d @ '']'')]\<rparr>)"
  by (simp add: createReverseProxy_def)

lemma createReverseProxy_fresh:
  "destProxy d = None \<Longrightarrow> ParseRequestURI lib (destHost d) = Inr u \<Longrightarrow>
   createReverseProxy lib d w = (Inr (length (proxies w)), w\<lparr>proxies := proxies w @ [u]\<rparr>)"
  by (simp add: createReverseProxy_def)

section \<open>The branches of ServeHTTP\<close>

lemma ServeHTTP_notfound:
  "backendServers w host = None \<Longrightarrow>
   ServeHTTP lib host w =
     (HttpError 404 (''Backend server '' @ Quote lib host @ '' not found''),
      w\<lparr>errlog := errlog w @
         [(''ReProx/ServeHTTP'', ''Backend server '' @ Quote lib host @ '' not found'')]\<rparr>)"
  by (simp add: ServeHTTP_def Let_def)

lemma ServeHTTP_invalid:
  "backendServers w host = Some d \<Longrightarrow> destProxy d = None \<Longrightarrow>
   ParseRequestURI lib (destHost d) = Inl e \<Longrightarrow>
   ServeHTTP lib host w =
     (HttpError 500 ''Internal Server Error'',
      w\<lparr>errlog := errlog w @
         [(''ReProx/createReverseProxy'', ''Internal Server Error ['' @ destHost d @ '']'')]\<rparr>)"
  by (simp add: ServeHTTP_def createReverseProxy_error)

lemma ServeHTTP_cached:
  "backendServers w host = Some d \<Longrightarrow> destProxy d = Some p \<Longrightarrow>
   ServeHTTP lib host w = (Delegated p, w\<lparr>stores := stores w @ [host]\<rparr>)"
  by (simp add: ServeHTTP_def createReverseProxy_cached map_upd_triv)

lemma ServeHTTP_create:
  "backendServers w host = Some d \<Longrightarrow> destProxy d = None \<Longrightarrow>
   ParseRequestURI lib (destHost d) = Inr u \<Longrightarrow>
   ServeHTTP lib host w =
     (Delegated (length (proxies w)),
      w\<lparr>proxies := proxies w @ [u],
        backendServers := (backendServers w)(host \<mapsto> d\<lparr>destProxy := Some (length (proxies w))\<rparr>),
        stores := stores w @ [host]\<rparr>)"
  by (simp add: ServeHTTP_def createReverseProxy_fresh)

text \<open>Every call of \<open>ServeHTTP\<close> takes one of the four branches.\<close>

lemma ServeHTTP_cases:
  obtains
    (notfound) "backendServers w host = None"
  | (invalid) d e where "backendServers w host = Some d" "destProxy d = None"
      "ParseRequestURI lib (destHost d) = Inl e"
  | (cached) d p where "backendServers w host = Some d" "destProxy d = Some p"
  | (create) d u where "backendServers w host = Some d" "destProxy d = None"
      "ParseRequestURI lib (destHost d) = Inr u"
proof (cases "backendServers w host")
  case None
  then show ?thesis by (rule notfound)
next
  case (Some d)
  show ?thesis
  proof (cases "destProxy d")
    case (Some p)
    with \<open>backendServers w host = Some d\<close> show ?thesis by (rule cached)
  next
    case None
    show ?thesis
    proof (cases "ParseRequestURI lib (destHost d)")
      case (Inl e)
      with \<open>backendServers w host = Some d\<close> None show ?thesis by (rule invalid)
    next
      case (Inr u)
      with \<open>backendServers w host = Some d\<close> None show ?thesis by (rule create)
    qed
  qed
qed

section \<open>Unknown hosts and error paths\<close>

text \<open>
  Claim C3.  When the host of the request is not a key of the registry (the
  lookup is the map's own, so the whole string counts, port included), the
  dispatcher answers 404 with a message that names the host, logs the same
  message, constructs no reverse proxy, leaves the registry alone and passes the
  request to no proxy.
\<close>

theorem unknown_host_not_found:
  assumes "backendServers w host = None"
  shows "ServeHTTP lib host w =
           (HttpError 404 (''Backend server '' @ Quote lib host @ '' not found''),
            w\<lparr>errlog := errlog w @
               [(''ReProx/ServeHTTP'', ''Backend server '' @ Quote lib host @ '' not found'')]\<rparr>)
         \<and> proxies (snd (ServeHTTP lib host w)) = proxies w
         \<and> backendServers (snd (ServeHTTP lib host w)) = backendServers w
         \<and> stores (snd (ServeHTTP lib host w)) = stores w"
  using assms by (simp add: ServeHTTP_notfound)

theorem unknown_host_not_found_witness:
  "ServeHTTP sampleLib ''bla.mwat.de:8080'' (NewProxyHandler :: string world) =
     (HttpError 404
        (''Backend server '' @ [CHR 0x22] @ ''bla.mwat.de:8080'' @ [CHR 0x22] @ '' not found''),
      NewProxyHandler\<lparr>errlog :=
        [(''ReProx/ServeHTTP'',
          ''Backend server '' @ [CHR 0x22] @ ''bla.mwat.de:8080'' @ [CHR 0x22] @ '' not found'')]\<rparr>)
   \<and> fst (ServeHTTP sampleLib ''www.bla.mwat.de'' (NewProxyHandler :: string world)) =
       HttpError 404
        (''Backend server '' @ [CHR 0x22] @ ''www.bla.mwat.de'' @ [CHR 0x22] @ '' not found'')"
proof -
  have a: "backendServers (NewProxyHandler :: string world) ''bla.mwat.de:8080'' = None"
    by (simp add: NewProxyHandler_def initBackendList_def)
  have b: "backendServers (NewProxyHandler :: string world) ''www.bla.mwat.de'' = None"
    by (simp add: NewProxyHandler_def initBackendList_def)
  show ?thesis
    using unknown_host_not_found [OF a, of sampleLib]
      unknown_host_not_found [OF b, of sampleLib]
    by (simp add: sampleLib_def NewProxyHandler_def)
qed

text \<open>
  Claim C9.  Whenever \<open>ServeHTTP\<close> answers with an error (404 for an unknown
  host, 500 when no reverse proxy could be made) the registry map is what it was
  before the call; no proxy was constructed and no map assignment was executed.
\<close>

theorem error_leaves_registry:
  assumes "ServeHTTP lib host w = (HttpError code msg, w')"
  shows "backendServers w' = backendServers w \<and> proxies w' = proxies w
         \<and> stores w' = stores w \<and> (code = 404 \<or> code = 500)"
proof (cases rule: ServeHTTP_cases [where w = w and host = host and lib = lib])
  case notfound
  from assms show ?thesis by (auto simp: ServeHTTP_notfound [OF notfound])
next
  case (invalid d e)
  from assms show ?thesis by (auto simp: ServeHTTP_invalid [OF invalid])
next
  case (cached d p)
  from assms show ?thesis by (simp add: ServeHTTP_cached [OF cached])
next
  case (create d u)
  from assms show ?thesis by (simp add: ServeHTTP_create [OF create])
qed

theorem error_leaves_registry_witness:
  "fst (ServeHTTP sampleLib ''mwat.de'' (NewProxyHandler :: string world)) =
     HttpError 404 (''Backend server '' @ [CHR 0x22] @ ''mwat.de'' @ [CHR 0x22] @ '' not found'')
   \<and> backendServers (snd (ServeHTTP sampleLib ''mwat.de'' (NewProxyHandler :: string world)))
       = initBackendList
   \<and> proxies (snd (ServeHTTP sampleLib ''mwat.de'' (NewProxyHandler :: string world))) = []"
proof -
  have run: "ServeHTTP sampleLib ''mwat.de'' (NewProxyHandler :: string world) =
     (HttpError 404 (''Backend server '' @ [CHR 0x22] @ ''mwat.de'' @ [CHR 0x22] @ '' not found''),
      NewProxyHandler\<lparr>errlog :=
        [(''ReProx/ServeHTTP'',
          ''Backend server '' @ [CHR 0x22] @ ''mwat.de'' @ [CHR 0x22] @ '' not found'')]\<rparr>)"
    by (simp add: ServeHTTP_def Let_def sampleLib_def NewProxyHandler_def initBackendList_def)
  from error_leaves_registry [OF run] show ?thesis
    by (simp add: run) (simp add: NewProxyHandler_def)
qed

section \<open>What a request changes in the registry\<close>

lemma ServeHTTP_destHost:
  assumes "ServeHTTP lib host w = (r, w')"
  shows "map_option destHost (backendServers w' k) = map_option destHost (backendServers w k)"
proof (cases rule: ServeHTTP_cases [where w = w and host = host and lib = lib])
  case notfound
  from assms show ?thesis by (auto simp: ServeHTTP_notfound [OF notfound])
next
  case (invalid d e)
  from assms show ?thesis by (auto simp: ServeHTTP_invalid [OF invalid])
next
  case (cached d q)
  from assms show ?thesis by (auto simp: ServeHTTP_cached [OF cached])
next
  case (create d u)
  from assms create(1) show ?thesis by (auto simp: ServeHTTP_create [OF create])
qed

lemma serveSeq_destHost:
  "serveSeq lib hosts w = (rs, w') \<Longrightarrow>
   map_option destHost (backendServers w' k) = map_option destHost (backendServers w k)"
proof (induction hosts arbitrary: w rs w')
  case Nil
  then show ?case by simp
next
  case (Cons host hosts)
  obtain r w1 where one: "ServeHTTP lib host w = (r, w1)" by (cases "ServeHTTP lib host w")
  obtain rs' w2 where rest: "serveSeq lib hosts w1 = (rs', w2)"
    by (cases "serveSeq lib hosts w1")
  from Cons.prems one rest have "w' = w2" by simp
  with Cons.IH [OF rest] ServeHTTP_destHost [OF one] show ?case by simp
qed

lemma noHandles_handlesValid: "noHandles w \<Longrightarrow> handlesValid lib w"
  by (simp add: noHandles_def handlesValid_def)

lemma ServeHTTP_handlesValid:
  assumes "ServeHTTP lib host w = (r, w')" and "handlesValid lib w"
  shows "handlesValid lib w'"
proof (cases rule: ServeHTTP_cases [where w = w and host = host and lib = lib])
  case notfound
  from assms show ?thesis by (auto simp: ServeHTTP_notfound [OF notfound] handlesValid_def)
next
  case (invalid d e)
  from assms show ?thesis by (auto simp: ServeHTTP_invalid [OF invalid] handlesValid_def)
next
  case (cached d q)
  from assms show ?thesis by (auto simp: ServeHTTP_cached [OF cached] handlesValid_def)
next
  case (create d u)
  have w': "w' = w\<lparr>proxies := proxies w @ [u],
        backendServers := (backendServers w)(host \<mapsto> d\<lparr>destProxy := Some (length (proxies w))\<rparr>),
        stores := stores w @ [host]\<rparr>"
    using assms(1) by (simp add: ServeHTTP_create [OF create])
  show ?thesis
    unfolding handlesValid_def
  proof (intro allI impI)
    fix h d' p
    assume look: "backendServers w' h = Some d'" and prox: "destProxy d' = Some p"
    show "p < length (proxies w') \<and> ParseRequestURI lib (destHost d') = Inr (proxies w' ! p)"
    proof (cases "h = host")
      case True
      with look prox w' have "d' = d\<lparr>destProxy := Some (length (proxies w))\<rparr>"
        and "p = length (proxies w)" by auto
      with create(3) w' show ?thesis by simp
    next
      case False
      with look w' have "backendServers w h = Some d'" by simp
      with assms(2) prox have "p < length (proxies w)"
        and "ParseRequestURI lib (destHost d') = Inr (proxies w ! p)"
        by (auto simp: handlesValid_def)
      with w' show ?thesis by (simp add: nth_append)
    qed
  qed
qed

lemma serveSeq_handlesValid:
  "serveSeq lib hosts w = (rs, w') \<Longrightarrow> handlesValid lib w \<Longrightarrow> handlesValid lib w'"
proof (induction hosts arbitrary: w rs w')
  case Nil
  then show ?case by simp
next
  case (Cons host hosts)
  obtain r w1 where one: "ServeHTTP lib host w = (r, w1)" by (cases "ServeHTTP lib host w")
  obtain rs' w2 where rest: "serveSeq lib hosts w1 = (rs', w2)"
    by (cases "serveSeq lib hosts w1")
  from Cons.prems(1) one rest have "w' = w2" by simp
  with Cons.IH [OF rest ServeHTTP_handlesValid [OF one Cons.prems(2)]] show ?case by simp
qed

text \<open>
  A request for a host with a valid handle or a URL that parses is passed to a
  proxy built for that URL.
\<close>

lemma ServeHTTP_routed:
  assumes valid: "handlesValid lib w"
    and look: "backendServers w host = Some d"
    and parse: "ParseRequestURI lib (destHost d) = Inr u"
  shows "\<exists>p. fst (ServeHTTP lib host w) = Delegated p
            \<and> p < length (proxies (snd (ServeHTTP lib host w)))
            \<and> proxies (snd (ServeHTTP lib host w)) ! p = u"
proof (cases "destProxy d")
  case None
  from ServeHTTP_create [OF look None parse] show ?thesis by simp
next
  case (Some p)
  from valid look Some parse have "p < length (proxies w)" "proxies w ! p = u"
    by (auto simp: handlesValid_def)
  with ServeHTTP_cached [OF look Some] show ?thesis by simp
qed

text \<open>
  Claim C8, as the code has it.  A request never changes the set of keys of the
  registry nor the \<open>destHost\<close> of any entry, and never touches the entry
  of another host.  The contents of the map change only when a reverse proxy is
  constructed in this request, and then only \<open>destProxy\<close> of the requested host
  changes, from nil to the new handle.  The map assignment itself is executed by
  every request that is passed to a proxy, also when the handle was cached (it
  then stores the entry that was read); the two error returns execute none.
\<close>

theorem registry_changes_only_by_new_handle:
  assumes "ServeHTTP lib host w = (r, w')"
  shows "dom (backendServers w') = dom (backendServers w)
       \<and> (\<forall>k. map_option destHost (backendServers w' k) = map_option destHost (backendServers w k))
       \<and> (\<forall>k. k \<noteq> host \<longrightarrow> backendServers w' k = backendServers w k)
       \<and> (backendServers w' \<noteq> backendServers w \<longrightarrow>
            (\<exists>d u. backendServers w host = Some d \<and> destProxy d = None
               \<and> proxies w' = proxies w @ [u] \<and> r = Delegated (length (proxies w))
               \<and> backendServers w' =
                   (backendServers w)(host \<mapsto> d\<lparr>destProxy := Some (length (proxies w))\<rparr>)))
       \<and> stores w' = (case r of Delegated p \<Rightarrow> stores w @ [host] | HttpError c m \<Rightarrow> stores w)"
proof (cases rule: ServeHTTP_cases [where w = w and host = host and lib = lib])
  case notfound
  from assms show ?thesis by (auto simp: ServeHTTP_notfound [OF notfound])
next
  case (invalid d e)
  from assms show ?thesis by (auto simp: ServeHTTP_invalid [OF invalid])
next
  case (cached d q)
  from assms show ?thesis by (auto simp: ServeHTTP_cached [OF cached])
next
  case (create d u)
  have w': "w' = w\<lparr>proxies := proxies w @ [u],
        backendServers := (backendServers w)(host \<mapsto> d\<lparr>destProxy := Some (length (proxies w))\<rparr>),
        stores := stores w @ [host]\<rparr>" and r: "r = Delegated (length (proxies w))"
    using assms by (simp_all add: ServeHTTP_create [OF create])
  have "dom (backendServers w') = dom (backendServers w)"
    using create(1) by (auto simp: w')
  moreover have "\<forall>k. map_option destHost (backendServers w' k)
      = map_option destHost (backendServers w k)"
    using create(1) by (simp add: w')
  moreover have "\<forall>k. k \<noteq> host \<longrightarrow> backendServers w' k = backendServers w k"
    by (simp add: w')
  moreover have "\<exists>d u. backendServers w host = Some d \<and> destProxy d = None
               \<and> proxies w' = proxies w @ [u] \<and> r = Delegated (length (proxies w))
               \<and> backendServers w' =
                   (backendServers w)(host \<mapsto> d\<lparr>destProxy := Some (length (proxies w))\<rparr>)"
    using create r by (intro exI [of _ d] exI [of _ u]) (simp add: w')
  moreover have "stores w' = (case r of Delegated p \<Rightarrow> stores w @ [host]
      | HttpError c m \<Rightarrow> stores w)"
    by (simp add: w' r)
  ultimately show ?thesis by blast
qed

lemma first_request_bla:
  "ServeHTTP sampleLib ''bla.mwat.de'' NewProxyHandler =
     (Delegated 0,
      \<lparr>backendServers = initBackendList(''bla.mwat.de'' \<mapsto>
           \<lparr>destHost = ''http://192.168.192.236:8181'', destProxy = Some 0\<rparr>),
        proxies = [''http://192.168.192.236:8181''], errlog = [],
        stores = [''bla.mwat.de'']\<rparr>)"
  by (simp add: ServeHTTP_def createReverseProxy_def sampleLib_def NewProxyHandler_def
      initBackendList_def)

theorem registry_changes_only_by_new_handle_witness:
  "dom (backendServers (snd (ServeHTTP sampleLib ''bla.mwat.de'' NewProxyHandler)))
     = dom initBackendList
   \<and> backendServers (snd (ServeHTTP sampleLib ''bla.mwat.de'' NewProxyHandler)) ''read.mwat.de''
     = Some \<lparr>destHost = ''http://192.168.192.236:8383'', destProxy = None\<rparr>
   \<and> backendServers (snd (ServeHTTP sampleLib ''bla.mwat.de'' NewProxyHandler)) ''bla.mwat.de''
     = Some \<lparr>destHost = ''http://192.168.192.236:8181'', destProxy = Some 0\<rparr>
   \<and> stores (snd (ServeHTTP sampleLib ''bla.mwat.de'' NewProxyHandler)) = [''bla.mwat.de'']"
  using registry_changes_only_by_new_handle [OF first_request_bla]
  by (simp add: first_request_bla) (simp add: NewProxyHandler_def initBackendList_def)

text \<open>
  The second request for a host: no proxy is constructed, and the map
  assignment is executed all the same.
\<close>

theorem store_on_cache_hit:
  "proxies (snd (ServeHTTP sampleLib ''bla.mwat.de''
       (snd (ServeHTTP sampleLib ''bla.mwat.de'' NewProxyHandler))))
     = proxies (snd (ServeHTTP sampleLib ''bla.mwat.de'' NewProxyHandler))
   \<and> stores (snd (ServeHTTP sampleLib ''bla.mwat.de'' NewProxyHandler)) = [''bla.mwat.de'']
   \<and> stores (snd (ServeHTTP sampleLib ''bla.mwat.de''
       (snd (ServeHTTP sampleLib ''bla.mwat.de'' NewProxyHandler))))
     = [''bla.mwat.de'', ''bla.mwat.de'']"
  by (simp add: first_request_bla)
    (simp add: ServeHTTP_def createReverseProxy_def sampleLib_def initBackendList_def)

section \<open>A backend URL that does not parse\<close>

text \<open>
  Claim C4.  Start from a registry in which no destination has a reverse proxy
  yet and let any sequence of requests be handled.  A request for a registered
  host whose \<open>destHost\<close> fails to parse is then answered with 500 and the fixed
  message; the call returns, and the only thing it changes is the error log.
  Therefore every request after it is answered as if it had not happened, and a
  request for a registered host whose URL parses is passed to a proxy built for
  that URL.
\<close>

theorem invalid_backend_url:
  assumes start: "noHandles w0"
    and look: "backendServers w0 host = Some d"
    and bad: "ParseRequestURI lib (destHost d) = Inl e"
    and history: "serveSeq lib hosts w0 = (rs, w)"
  shows "ServeHTTP lib host w =
           (HttpError 500 ''Internal Server Error'',
            w\<lparr>errlog := errlog w @
               [(''ReProx/createReverseProxy'',
                 ''Internal Server Error ['' @ destHost d @ '']'')]\<rparr>)
       \<and> (\<forall>host'. fst (ServeHTTP lib host' (snd (ServeHTTP lib host w)))
                     = fst (ServeHTTP lib host' w))
       \<and> (\<forall>host' d' u.
             backendServers w0 host' = Some d' \<longrightarrow> ParseRequestURI lib (destHost d') = Inr u \<longrightarrow>
             (\<exists>p. fst (ServeHTTP lib host' (snd (ServeHTTP lib host w))) = Delegated p
                \<and> proxies (snd (ServeHTTP lib host' (snd (ServeHTTP lib host w)))) ! p = u))"
proof -
  let ?w1 = "w\<lparr>errlog := errlog w @
      [(''ReProx/createReverseProxy'', ''Internal Server Error ['' @ destHost d @ '']'')]\<rparr>"
  have valid: "handlesValid lib w"
    using history start by (blast intro: serveSeq_handlesValid noHandles_handlesValid)
  have same: "map_option destHost (backendServers w k) = map_option destHost (backendServers w0 k)"
    for k using history by (rule serveSeq_destHost)
  from same [of host] look obtain dw where dw: "backendServers w host = Some dw"
    and host_dw: "destHost dw = destHost d" by auto
  have nil: "destProxy dw = None"
  proof (cases "destProxy dw")
    case (Some p)
    with valid dw have "ParseRequestURI lib (destHost dw) = Inr (proxies w ! p)"
      by (auto simp: handlesValid_def)
    with bad host_dw show ?thesis by simp
  qed
  have answer: "ServeHTTP lib host w = (HttpError 500 ''Internal Server Error'', ?w1)"
    using ServeHTTP_invalid [OF dw nil, of lib e] bad host_dw by simp
  have after: "fst (ServeHTTP lib host' ?w1) = fst (ServeHTTP lib host' w)" for host'
    by (simp add: ServeHTTP_def createReverseProxy_def Let_def
        split: option.splits sum.splits)
  have valid1: "handlesValid lib ?w1"
    using valid by (simp add: handlesValid_def)
  have routed: "\<exists>p. fst (ServeHTTP lib host' ?w1) = Delegated p
      \<and> proxies (snd (ServeHTTP lib host' ?w1)) ! p = u"
    if "backendServers w0 host' = Some d'" and u: "ParseRequestURI lib (destHost d') = Inr u"
    for host' d' u
  proof -
    from same [of host'] that(1) obtain dw' where "backendServers w host' = Some dw'"
      and "destHost dw' = destHost d'" by auto
    then have "backendServers ?w1 host' = Some dw'"
      and "ParseRequestURI lib (destHost dw') = Inr u" using u by simp_all
    from ServeHTTP_routed [OF valid1 this] show ?thesis by blast
  qed
  show ?thesis
    using after routed by (simp add: answer)
qed

theorem invalid_backend_url_witness:
  "fst (ServeHTTP sampleLib ''bad.example''
          (snd (serveSeq sampleLib [''bla.mwat.de'', ''bad.example''] twoHosts)))
     = HttpError 500 ''Internal Server Error''
   \<and> fst (ServeHTTP sampleLib ''bla.mwat.de''
        (snd (ServeHTTP sampleLib ''bad.example''
          (snd (serveSeq sampleLib [''bla.mwat.de'', ''bad.example''] twoHosts))))) = Delegated 0
   \<and> proxies (snd (ServeHTTP sampleLib ''bla.mwat.de''
        (snd (ServeHTTP sampleLib ''bad.example''
          (snd (serveSeq sampleLib [''bla.mwat.de'', ''bad.example''] twoHosts)))))) ! 0
       = ''http://192.168.192.236:8181''"
proof -
  let ?w = "\<lparr>backendServers =
        [''bad.example'' \<mapsto> \<lparr>destHost = [], destProxy = None\<rparr>,
         ''bla.mwat.de'' \<mapsto> \<lparr>destHost = ''http://192.168.192.236:8181'', destProxy = Some 0\<rparr>],
      proxies = [''http://192.168.192.236:8181''],
      errlog = [(''ReProx/createReverseProxy'', ''Internal Server Error []'')],
      stores = [''bla.mwat.de'']\<rparr>"
  have start: "noHandles twoHosts"
    by (auto simp: noHandles_def twoHosts_def split: if_splits)
  have look: "backendServers twoHosts ''bad.example'' = Some \<lparr>destHost = [], destProxy = None\<rparr>"
    by (simp add: twoHosts_def)
  have bad: "ParseRequestURI sampleLib (destHost \<lparr>destHost = [], destProxy = None\<rparr>)
      = Inl (''parse '' @ [CHR 0x22, CHR 0x22] @ '': empty url'')"
    by (simp add: sampleLib_def)
  have history: "serveSeq sampleLib [''bla.mwat.de'', ''bad.example''] twoHosts
      = ([Delegated 0, HttpError 500 ''Internal Server Error''], ?w)"
    by (simp add: ServeHTTP_def createReverseProxy_def sampleLib_def twoHosts_def)
  have good: "backendServers twoHosts ''bla.mwat.de''
      = Some \<lparr>destHost = ''http://192.168.192.236:8181'', destProxy = None\<rparr>"
    by (simp add: twoHosts_def)
  have parse: "ParseRequestURI sampleLib
      (destHost \<lparr>destHost = ''http://192.168.192.236:8181'', destProxy = None\<rparr>)
      = Inr ''http://192.168.192.236:8181''"
    by (simp add: sampleLib_def)
  note main = invalid_backend_url [OF start look bad history]
  from main have one: "fst (ServeHTTP sampleLib ''bad.example'' ?w)
      = HttpError 500 ''Internal Server Error''"
    by simp
  from main good parse obtain p where
    p: "fst (ServeHTTP sampleLib ''bla.mwat.de''
        (snd (ServeHTTP sampleLib ''bad.example'' ?w))) = Delegated p"
    and u: "proxies (snd (ServeHTTP sampleLib ''bla.mwat.de''
        (snd (ServeHTTP sampleLib ''bad.example'' ?w)))) ! p
       = ''http://192.168.192.236:8181''"
    by blast
  have "fst (ServeHTTP sampleLib ''bla.mwat.de''
        (snd (ServeHTTP sampleLib ''bad.example'' ?w))) = Delegated 0"
    by (simp add: ServeHTTP_def createReverseProxy_def sampleLib_def)
  with p u one show ?thesis unfolding history snd_conv by simp
qed

section \<open>The cache of reverse proxies\<close>

lemma ServeHTTP_Delegated_stored:
  assumes "ServeHTTP lib host w = (Delegated p, w1)"
  shows "\<exists>d. backendServers w1 host = Some d \<and> destProxy d = Some p"
proof (cases rule: ServeHTTP_cases [where w = w and host = host and lib = lib])
  case notfound
  from assms show ?thesis by (simp add: ServeHTTP_notfound [OF notfound])
next
  case (invalid d e)
  from assms show ?thesis by (simp add: ServeHTTP_invalid [OF invalid])
next
  case (cached d q)
  from assms cached show ?thesis by (auto simp: ServeHTTP_cached [OF cached])
next
  case (create d u)
  from assms show ?thesis by (auto simp: ServeHTTP_create [OF create])
qed

lemma serveSeq_cached:
  "backendServers w host = Some d \<Longrightarrow> destProxy d = Some p \<Longrightarrow>
   serveSeq lib (replicate n host) w =
     (replicate n (Delegated p), w\<lparr>stores := stores w @ replicate n host\<rparr>)"
proof (induction n arbitrary: w)
  case 0
  show ?case by simp
next
  case (Suc n)
  have step: "ServeHTTP lib host w = (Delegated p, w\<lparr>stores := stores w @ [host]\<rparr>)"
    using Suc.prems by (rule ServeHTTP_cached)
  have "serveSeq lib (replicate n host) (w\<lparr>stores := stores w @ [host]\<rparr>) =
      (replicate n (Delegated p),
       w\<lparr>stores := stores w @ [host]\<rparr>
        \<lparr>stores := stores (w\<lparr>stores := stores w @ [host]\<rparr>) @ replicate n host\<rparr>)"
    using Suc.prems by (intro Suc.IH) simp_all
  with step show ?case by (simp add: replicate_app_Cons_same)
qed

text \<open>
  Claim C2.  Once the destination of a host has a reverse proxy, every later
  request for that host, handled in sequence, is passed to that same proxy; the
  list of constructed proxies and the registry stay as they are (the map
  assignment runs and stores the entry it has read).  The same holds after the
  first call that was passed to a proxy.
\<close>

theorem cached_handle_is_reused:
  "(backendServers w host = Some d \<and> destProxy d = Some p \<longrightarrow>
      serveSeq lib (replicate n host) w =
        (replicate n (Delegated p), w\<lparr>stores := stores w @ replicate n host\<rparr>))
   \<and> (ServeHTTP lib host w = (Delegated p, w1) \<longrightarrow>
      serveSeq lib (replicate n host) w1 =
        (replicate n (Delegated p), w1\<lparr>stores := stores w1 @ replicate n host\<rparr>))"
proof (intro conjI impI)
  assume "backendServers w host = Some d \<and> destProxy d = Some p"
  then show "serveSeq lib (replicate n host) w =
      (replicate n (Delegated p), w\<lparr>stores := stores w @ replicate n host\<rparr>)"
    by (simp add: serveSeq_cached)
next
  assume "ServeHTTP lib host w = (Delegated p, w1)"
  then obtain d' where "backendServers w1 host = Some d'" "destProxy d' = Some p"
    using ServeHTTP_Delegated_stored by blast
  then show "serveSeq lib (replicate n host) w1 =
      (replicate n (Delegated p), w1\<lparr>stores := stores w1 @ replicate n host\<rparr>)"
    by (rule serveSeq_cached)
qed

theorem cached_handle_is_reused_witness:
  "serveSeq sampleLib [''read.mwat.de'', ''read.mwat.de'', ''read.mwat.de'']
     (snd (ServeHTTP sampleLib ''read.mwat.de'' NewProxyHandler)) =
     ([Delegated 0, Delegated 0, Delegated 0],
      \<lparr>backendServers = initBackendList(''read.mwat.de'' \<mapsto>
           \<lparr>destHost = ''http://192.168.192.236:8383'', destProxy = Some 0\<rparr>),
        proxies = [''http://192.168.192.236:8383''], errlog = [],
        stores = [''read.mwat.de'', ''read.mwat.de'', ''read.mwat.de'', ''read.mwat.de'']\<rparr>)"
proof -
  have first: "ServeHTTP sampleLib ''read.mwat.de'' NewProxyHandler =
     (Delegated 0,
      \<lparr>backendServers = initBackendList(''read.mwat.de'' \<mapsto>
           \<lparr>destHost = ''http://192.168.192.236:8383'', destProxy = Some 0\<rparr>),
        proxies = [''http://192.168.192.236:8383''], errlog = [],
        stores = [''read.mwat.de'']\<rparr>)"
    by (simp add: ServeHTTP_def createReverseProxy_def sampleLib_def NewProxyHandler_def
        initBackendList_def)
  from cached_handle_is_reused [of _ _ _ _ sampleLib 3, THEN conjunct2, rule_format, OF first]
  show ?thesis by (simp add: first numeral_3_eq_3)
qed

text \<open>
  Claim C10.  \<open>createReverseProxy\<close> returns an error exactly when the destination's
  \<open>destProxy\<close> is nil and its \<open>destHost\<close> fails to parse; when \<open>destProxy\<close> is
  not nil it returns that handle with no error and touches nothing, whatever
  \<open>destHost\<close> is, so the URL of a cached handle is never parsed again.
\<close>

theorem createReverseProxy_error_iff:
  "((\<exists>e. fst (createReverseProxy lib d w) = Inl e) \<longleftrightarrow>
      (destProxy d = None \<and> (\<exists>e. ParseRequestURI lib (destHost d) = Inl e)))
   \<and> (\<forall>p. destProxy d = Some p \<longrightarrow> createReverseProxy lib d w = (Inr p, w))"
  by (auto simp: createReverseProxy_def split: option.splits sum.splits)

theorem createReverseProxy_error_iff_witness:
  "(\<exists>e. fst (createReverseProxy sampleLib \<lparr>destHost = [], destProxy = None\<rparr>
            (NewProxyHandler :: string world)) = Inl e)
   \<and> createReverseProxy sampleLib \<lparr>destHost = [], destProxy = Some 0\<rparr>
        (NewProxyHandler\<lparr>proxies := [''http://192.168.192.236:8181'']\<rparr>)
      = (Inr 0, NewProxyHandler\<lparr>proxies := [''http://192.168.192.236:8181'']\<rparr>)"
  using createReverseProxy_error_iff
    [of sampleLib "\<lparr>destHost = [], destProxy = None\<rparr>" "NewProxyHandler :: string world"]
    createReverseProxy_error_iff
    [of sampleLib "\<lparr>destHost = [], destProxy = Some 0\<rparr>"
        "NewProxyHandler\<lparr>proxies := [''http://192.168.192.236:8181'']\<rparr>"]
  by (simp add: sampleLib_def)

section \<open>Overlapping and sequential first requests\<close>

lemma overlapping_run:
  "interleave sampleLib [0, 1, 0, 1, 0, 1]
     [AtLookup ''bla.mwat.de'', AtLookup ''bla.mwat.de''] NewProxyHandler =
     ([Finished (Delegated 0), Finished (Delegated 1)],
      \<lparr>backendServers = initBackendList(''bla.mwat.de'' \<mapsto>
           \<lparr>destHost = ''http://192.168.192.236:8181'', destProxy = Some 1\<rparr>),
        proxies = [''http://192.168.192.236:8181'', ''http://192.168.192.236:8181''],
        errlog = [],
        stores = [''bla.mwat.de'', ''bla.mwat.de'']\<rparr>)"
  by (simp add: createReverseProxy_def sampleLib_def NewProxyHandler_def initBackendList_def)

text \<open>
  Two calls for the same host that both read the map before either has stored
  its handle: each constructs a reverse proxy of its own, the two requests are
  passed to different proxies, and the registry keeps the one stored last.
\<close>

theorem overlapping_requests_two_handles:
  "fst (interleave sampleLib [0, 1, 0, 1, 0, 1]
          [AtLookup ''bla.mwat.de'', AtLookup ''bla.mwat.de''] NewProxyHandler)
     = [Finished (Delegated 0), Finished (Delegated 1)]
   \<and> proxies (snd (interleave sampleLib [0, 1, 0, 1, 0, 1]
          [AtLookup ''bla.mwat.de'', AtLookup ''bla.mwat.de''] NewProxyHandler))
     = [''http://192.168.192.236:8181'', ''http://192.168.192.236:8181'']
   \<and> map_option destProxy (backendServers (snd (interleave sampleLib [0, 1, 0, 1, 0, 1]
          [AtLookup ''bla.mwat.de'', AtLookup ''bla.mwat.de''] NewProxyHandler)) ''bla.mwat.de'')
     = Some (Some 1)"
  unfolding overlapping_run by simp

text \<open>Three steps of one task are one call of \<open>ServeHTTP\<close>.\<close>

lemma steps_ServeHTTP:
  assumes "ServeHTTP lib host w = (r, w')"
  shows "(case step lib (AtLookup host) w of (t1, w1) \<Rightarrow>
            case step lib t1 w1 of (t2, w2) \<Rightarrow> step lib t2 w2) = (Finished r, w')"
  using assms
  by (auto simp: ServeHTTP_def Let_def split: option.splits prod.splits sum.splits)

lemma interleave_one_call:
  assumes i: "i < length ts" and at: "ts ! i = AtLookup host"
    and call: "ServeHTTP lib host w = (r, w')"
  shows "interleave lib [i, i, i] ts w = (ts[i := Finished r], w')"
proof -
  obtain t1 w1 where s1: "step lib (AtLookup host) w = (t1, w1)"
    by (cases "step lib (AtLookup host) w")
  obtain t2 w2 where s2: "step lib t1 w1 = (t2, w2)" by (cases "step lib t1 w1")
  from steps_ServeHTTP [OF call] s1 s2 have s3: "step lib t2 w2 = (Finished r, w')" by simp
  from i at s1 s2 s3 show ?thesis by simp
qed

lemma interleave_append:
  "interleave lib (s1 @ s2) ts w =
     (case interleave lib s1 ts w of (ts1, w1) \<Rightarrow> interleave lib s2 ts1 w1)"
  by (induction s1 arbitrary: ts w) (auto split: prod.splits)

lemma interleave_serial_from:
  "serveSeq lib hosts w = (rs, w') \<Longrightarrow>
   interleave lib (concat (map (\<lambda>i. [i, i, i]) [length fin..<length fin + length hosts]))
     (fin @ map AtLookup hosts) w = (fin @ map Finished rs, w')"
proof (induction hosts arbitrary: fin w rs w')
  case Nil
  then show ?case by auto
next
  case (Cons host hosts)
  obtain r w1 where one: "ServeHTTP lib host w = (r, w1)" by (cases "ServeHTTP lib host w")
  obtain rs' w2 where rest: "serveSeq lib hosts w1 = (rs', w2)"
    by (cases "serveSeq lib hosts w1")
  from Cons.prems one rest have rs: "rs = r # rs'" and w': "w' = w2" by simp_all
  let ?k = "length fin"
  have sched: "concat (map (\<lambda>i. [i, i, i]) [?k..<?k + length (host # hosts)])
      = [?k, ?k, ?k] @ concat (map (\<lambda>i. [i, i, i])
            [length (fin @ [Finished r])..<length (fin @ [Finished r]) + length hosts])"
    using upt_conv_Cons [of ?k "Suc (?k + length hosts)"] by (simp del: upt_Suc)
  have first: "interleave lib [?k, ?k, ?k] (fin @ map AtLookup (host # hosts)) w
      = ((fin @ [Finished r]) @ map AtLookup hosts, w1)"
    using interleave_one_call [of ?k "fin @ map AtLookup (host # hosts)" host lib w r w1] one
    by simp
  show ?case
    unfolding sched interleave_append first
    using Cons.IH [OF rest, of "fin @ [Finished r]"] by (simp add: rs w')
qed

lemma interleave_serial:
  "serveSeq lib hosts w = (rs, w') \<Longrightarrow>
   interleave lib (serial (length hosts)) (map AtLookup hosts) w = (map Finished rs, w')"
  using interleave_serial_from [of lib hosts w rs w' "[]"] by (simp add: serial_def)

lemma serveSeq_first_requests:
  assumes look: "backendServers w host = Some d" and nil: "destProxy d = None"
    and parse: "ParseRequestURI lib (destHost d) = Inr u"
  shows "serveSeq lib (replicate (Suc n) host) w =
     (replicate (Suc n) (Delegated (length (proxies w))),
      w\<lparr>proxies := proxies w @ [u],
        backendServers := (backendServers w)(host \<mapsto> d\<lparr>destProxy := Some (length (proxies w))\<rparr>),
        stores := stores w @ replicate (Suc n) host\<rparr>)"
proof -
  let ?p = "length (proxies w)"
  let ?w1 = "w\<lparr>proxies := proxies w @ [u],
        backendServers := (backendServers w)(host \<mapsto> d\<lparr>destProxy := Some ?p\<rparr>),
        stores := stores w @ [host]\<rparr>"
  have first: "ServeHTTP lib host w = (Delegated ?p, ?w1)"
    using look nil parse by (rule ServeHTTP_create)
  have "serveSeq lib (replicate n host) ?w1 =
      (replicate n (Delegated ?p), ?w1\<lparr>stores := stores ?w1 @ replicate n host\<rparr>)"
    by (rule serveSeq_cached [where d = "d\<lparr>destProxy := Some ?p\<rparr>"]) simp_all
  with first show ?thesis by simp
qed

subsection \<open>Any schedule\<close>

lemma filter_update_same:
  "i < length xs \<Longrightarrow> P (xs ! i) = P y \<Longrightarrow>
   length (filter P (xs[i := y])) = length (filter P xs)"
proof (induction xs arbitrary: i)
  case Nil
  then show ?case by simp
next
  case (Cons x xs)
  then show ?case by (cases i) auto
qed

lemma filter_update_gain:
  "i < length xs \<Longrightarrow> \<not> P (xs ! i) \<Longrightarrow> P y \<Longrightarrow>
   length (filter P (xs[i := y])) = Suc (length (filter P xs))"
proof (induction xs arbitrary: i)
  case Nil
  then show ?case by simp
next
  case (Cons x xs)
  then show ?case by (cases i) auto
qed

lemma handleIn_mono: "handleIn lo hi q \<Longrightarrow> hi \<le> hi' \<Longrightarrow> handleIn lo hi' q"
  by (cases q) auto

lemma taskOk_mono: "taskOk host url lo hi t \<Longrightarrow> hi \<le> hi' \<Longrightarrow> taskOk host url lo hi' t"
  by (induction host url lo hi t rule: taskOk.induct) (auto intro: handleIn_mono)

lemma list_all_update:
  "list_all P xs \<Longrightarrow> P y \<Longrightarrow> list_all P (xs[i := y])"
  by (auto simp: list_all_iff dest: set_update_subset_insert [THEN subsetD])

lemma list_all_taskOk_mono:
  "list_all (taskOk host url lo hi) ts \<Longrightarrow> hi \<le> hi' \<Longrightarrow> list_all (taskOk host url lo hi') ts"
  by (auto simp: list_all_iff intro: taskOk_mono)

lemma step_runInv:
  assumes inv: "runInv host url u lo ts w"
    and parse: "ParseRequestURI lib url = Inr u"
    and i: "i < length ts"
    and st: "step lib (ts ! i) w = (t, w')"
  shows "runInv host url u lo (ts[i := t]) w'"
proof -
  let ?hi = "length (proxies w)"
  from inv have all: "list_all (taskOk host url lo ?hi) ts"
    and lo: "lo \<le> ?hi"
    and bound: "?hi \<le> lo + length (filter pastCreate ts)"
    and built: "\<And>p. lo \<le> p \<Longrightarrow> p < ?hi \<Longrightarrow> proxies w ! p = u"
    by (simp_all add: runInv_def)
  from inv obtain d where reg: "backendServers w host = Some d" "destHost d = url"
    "handleIn lo ?hi (destProxy d)"
    by (auto simp: runInv_def)
  from all i have ok: "taskOk host url lo ?hi (ts ! i)" by (simp add: list_all_length)
  show ?thesis
  proof (cases "ts ! i")
    case (AtLookup h)
    with ok have h: "h = host" by simp
    from st AtLookup h reg have t: "t = AtCreate host d" and w': "w' = w" by simp_all
    have "list_all (taskOk host url lo ?hi) (ts[i := t])"
      using all reg by (intro list_all_update) (simp_all add: t)
    moreover have "length (filter pastCreate (ts[i := t])) = length (filter pastCreate ts)"
      using i AtLookup by (intro filter_update_same) (simp_all add: t)
    ultimately show ?thesis
      using lo bound built reg by (auto simp: runInv_def w')
  next
    case (AtCreate h target)
    with ok have h: "h = host" and tg: "destHost target = url"
      and tp: "handleIn lo ?hi (destProxy target)" by simp_all
    have gain: "length (filter pastCreate (ts[i := AtStore host target q]))
        = Suc (length (filter pastCreate ts))" for q
      using i AtCreate by (intro filter_update_gain) simp_all
    show ?thesis
    proof (cases "destProxy target")
      case (Some q)
      with tp have q: "lo \<le> q" "q < ?hi" by simp_all
      from st AtCreate h Some have t: "t = AtStore host target q" and w': "w' = w"
        by (simp_all add: createReverseProxy_cached)
      have "list_all (taskOk host url lo ?hi) (ts[i := t])"
        using all tg q by (intro list_all_update) (simp_all add: t)
      then show ?thesis
        using lo bound built reg gain [of q] by (auto simp: runInv_def w' t)
    next
      case None
      from st AtCreate h None tg parse
      have t: "t = AtStore host target ?hi" and w': "w' = w\<lparr>proxies := proxies w @ [u]\<rparr>"
        by (simp_all add: createReverseProxy_fresh)
      have "list_all (taskOk host url lo (Suc ?hi)) ts"
        using all by (rule list_all_taskOk_mono) simp
      then have "list_all (taskOk host url lo (Suc ?hi)) (ts[i := t])"
        using tg lo by (intro list_all_update) (simp_all add: t)
      moreover have "proxies w' ! p = u" if "lo \<le> p" "p < Suc ?hi" for p
        using that built [of p] by (cases "p = ?hi") (simp_all add: w' nth_append)
      moreover have "handleIn lo (Suc ?hi) (destProxy d)"
        using reg(3) by (rule handleIn_mono) simp
      ultimately show ?thesis
        using lo bound reg(1,2) gain [of ?hi] by (auto simp: runInv_def w' t)
    qed
  next
    case (AtStore h target q)
    with ok have h: "h = host" and tg: "destHost target = url"
      and q: "lo \<le> q" "q < ?hi" by simp_all
    from st AtStore h have t: "t = Finished (Delegated q)"
      and w': "w' = w\<lparr>backendServers := (backendServers w)(host \<mapsto> target\<lparr>destProxy := Some q\<rparr>),
          stores := stores w @ [host]\<rparr>" by simp_all
    have "list_all (taskOk host url lo ?hi) (ts[i := t])"
      using all q by (intro list_all_update) (simp_all add: t)
    moreover have "length (filter pastCreate (ts[i := t])) = length (filter pastCreate ts)"
      using i AtStore by (intro filter_update_same) (simp_all add: t)
    ultimately show ?thesis
      using lo bound built tg q by (auto simp: runInv_def w')
  next
    case (Finished r)
    with st have "t = ts ! i" and "w' = w" by simp_all
    with inv show ?thesis by simp
  qed
qed

lemma interleave_length:
  "interleave lib sched ts w = (ts', w') \<Longrightarrow> length ts' = length ts"
proof (induction sched arbitrary: ts w)
  case Nil
  then show ?case by simp
next
  case (Cons i sched)
  show ?case
  proof (cases "i < length ts")
    case True
    obtain t w1 where st: "step lib (ts ! i) w = (t, w1)" by (cases "step lib (ts ! i) w")
    with Cons.prems True have "interleave lib sched (ts[i := t]) w1 = (ts', w')" by simp
    from Cons.IH [OF this] show ?thesis by simp
  next
    case False
    with Cons.prems have "interleave lib sched ts w = (ts', w')" by simp
    then show ?thesis by (rule Cons.IH)
  qed
qed

lemma interleave_runInv:
  "interleave lib sched ts w = (ts', w') \<Longrightarrow> runInv host url u lo ts w \<Longrightarrow>
   ParseRequestURI lib url = Inr u \<Longrightarrow> runInv host url u lo ts' w'"
proof (induction sched arbitrary: ts w)
  case Nil
  then show ?case by simp
next
  case (Cons i sched)
  show ?case
  proof (cases "i < length ts")
    case True
    obtain t w1 where st: "step lib (ts ! i) w = (t, w1)" by (cases "step lib (ts ! i) w")
    with Cons.prems(1) True have run: "interleave lib sched (ts[i := t]) w1 = (ts', w')" by simp
    have "runInv host url u lo (ts[i := t]) w1"
      using Cons.prems(2,3) True st by (rule step_runInv)
    from Cons.IH [OF run this Cons.prems(3)] show ?thesis .
  next
    case False
    with Cons.prems(1) have "interleave lib sched ts w = (ts', w')" by simp
    from Cons.IH [OF this Cons.prems(2,3)] show ?thesis .
  qed
qed

lemma runInv_start:
  assumes "backendServers w host = Some d" and "destProxy d = None"
  shows "runInv host (destHost d) u (length (proxies w)) (replicate n (AtLookup host)) w"
  using assms by (auto simp: runInv_def list_all_iff)

lemma runInv_result:
  assumes inv: "runInv host url u lo ts w"
  shows "length (proxies w) \<le> lo + length ts"
    and "Finished r \<in> set ts \<Longrightarrow>
         \<exists>p. r = Delegated p \<and> lo \<le> p \<and> p < length (proxies w) \<and> proxies w ! p = u"
proof -
  from inv have "length (proxies w) \<le> lo + length (filter pastCreate ts)"
    by (simp add: runInv_def)
  moreover have "length (filter pastCreate ts) \<le> length ts" by (rule length_filter_le)
  ultimately show "length (proxies w) \<le> lo + length ts" by linarith
next
  assume "Finished r \<in> set ts"
  with inv have ok: "taskOk host url lo (length (proxies w)) (Finished r)"
    by (auto simp: runInv_def list_all_iff)
  then obtain p where r: "r = Delegated p" by (cases r) simp_all
  with ok have "lo \<le> p" "p < length (proxies w)" by simp_all
  moreover from this inv have "proxies w ! p = u" by (simp add: runInv_def)
  ultimately show "\<exists>p. r = Delegated p \<and> lo \<le> p \<and> p < length (proxies w) \<and> proxies w ! p = u"
    using r by blast
qed

text \<open>
  Claim C1, as the code has it.  \<open>ServeHTTP\<close> has no synchronisation.  Take
  \<open>n\<close> first requests for a registered host that has no handle yet and whose
  URL parses.  When they are handled one after the other (each call returns
  before the next starts), exactly one reverse proxy is constructed and all
  \<open>n\<close> requests are passed to it.  When the calls overlap, in whatever order
  their steps are taken, at most \<open>n\<close> reverse proxies are constructed, and
  every call that has returned has passed its request to a proxy constructed
  during the run for the URL of this host; it need not be the same proxy for all.
\<close>

theorem first_requests_handles:
  assumes look: "backendServers w host = Some d" and nil: "destProxy d = None"
    and parse: "ParseRequestURI lib (destHost d) = Inr u"
  shows "(0 < n \<longrightarrow>
          interleave lib (serial n) (replicate n (AtLookup host)) w =
            (replicate n (Finished (Delegated (length (proxies w)))),
             w\<lparr>proxies := proxies w @ [u],
               backendServers :=
                 (backendServers w)(host \<mapsto> d\<lparr>destProxy := Some (length (proxies w))\<rparr>),
               stores := stores w @ replicate n host\<rparr>))
       \<and> (interleave lib sched (replicate n (AtLookup host)) w = (ts, w') \<longrightarrow>
            length (proxies w') \<le> length (proxies w) + n
            \<and> (\<forall>r. Finished r \<in> set ts \<longrightarrow>
                 (\<exists>p. r = Delegated p \<and> length (proxies w) \<le> p \<and> p < length (proxies w')
                     \<and> proxies w' ! p = u)))"
proof (intro conjI impI allI)
  assume "0 < n"
  then obtain m where m: "n = Suc m" by (cases n) auto
  from interleave_serial [OF serveSeq_first_requests [OF look nil parse, of m]]
  show "interleave lib (serial n) (replicate n (AtLookup host)) w =
            (replicate n (Finished (Delegated (length (proxies w)))),
             w\<lparr>proxies := proxies w @ [u],
               backendServers :=
                 (backendServers w)(host \<mapsto> d\<lparr>destProxy := Some (length (proxies w))\<rparr>),
               stores := stores w @ replicate n host\<rparr>)"
    by (simp add: m del: replicate.simps serveSeq.simps)
next
  assume run: "interleave lib sched (replicate n (AtLookup host)) w = (ts, w')"
  have inv: "runInv host (destHost d) u (length (proxies w)) ts w'"
    using run runInv_start [OF look nil] parse by (rule interleave_runInv)
  from interleave_length [OF run] have len: "length ts = n" by simp
  from runInv_result(1) [OF inv] len
  show "length (proxies w') \<le> length (proxies w) + n" by simp
  fix r
  assume "Finished r \<in> set ts"
  with inv show "\<exists>p. r = Delegated p \<and> length (proxies w) \<le> p \<and> p < length (proxies w')
      \<and> proxies w' ! p = u"
    by (rule runInv_result(2))
qed

theorem first_requests_handles_witness:
  "interleave sampleLib [0, 0, 0, 1, 1, 1]
     [AtLookup ''bla.mwat.de'', AtLookup ''bla.mwat.de''] NewProxyHandler =
     ([Finished (Delegated 0), Finished (Delegated 0)],
      \<lparr>backendServers = initBackendList(''bla.mwat.de'' \<mapsto>
           \<lparr>destHost = ''http://192.168.192.236:8181'', destProxy = Some 0\<rparr>),
        proxies = [''http://192.168.192.236:8181''],
        errlog = [],
        stores = [''bla.mwat.de'', ''bla.mwat.de'']\<rparr>)
   \<and> length (proxies (snd (interleave sampleLib [0, 1, 0, 1, 0, 1]
          [AtLookup ''bla.mwat.de'', AtLookup ''bla.mwat.de''] NewProxyHandler))) \<le> 2
   \<and> proxies (snd (interleave sampleLib [0, 1, 0, 1, 0, 1]
          [AtLookup ''bla.mwat.de'', AtLookup ''bla.mwat.de''] NewProxyHandler)) ! 1
       = ''http://192.168.192.236:8181''"
proof -
  have look: "backendServers (NewProxyHandler :: string world) ''bla.mwat.de''
      = Some \<lparr>destHost = ''http://192.168.192.236:8181'', destProxy = None\<rparr>"
    by (simp add: NewProxyHandler_def initBackendList_def)
  have nil: "destProxy \<lparr>destHost = ''http://192.168.192.236:8181'', destProxy = None\<rparr> = None"
    by simp
  have parse: "ParseRequestURI sampleLib
      (destHost \<lparr>destHost = ''http://192.168.192.236:8181'', destProxy = None\<rparr>)
      = Inr ''http://192.168.192.236:8181''"
    by (simp add: sampleLib_def)
  have sched: "serial 2 = [0, 0, 0, 1, 1, 1]"
    by (simp add: serial_def upt_rec numeral_2_eq_2)
  have tasks: "replicate 2 (AtLookup ''bla.mwat.de'')
      = [AtLookup ''bla.mwat.de'', AtLookup ''bla.mwat.de'']"
    by (simp add: numeral_2_eq_2)
  have hosts: "replicate 2 ''bla.mwat.de'' = [''bla.mwat.de'', ''bla.mwat.de'']"
    by (simp add: numeral_2_eq_2)
  have fins: "replicate 2 (Finished (Delegated 0)) = [Finished (Delegated 0), Finished (Delegated 0)]"
    by (simp add: numeral_2_eq_2)
  note main = first_requests_handles [OF look nil parse, of 2 "[0, 1, 0, 1, 0, 1]",
      unfolded sched tasks hosts]
  have seq: "interleave sampleLib [0, 0, 0, 1, 1, 1]
     [AtLookup ''bla.mwat.de'', AtLookup ''bla.mwat.de''] NewProxyHandler =
     ([Finished (Delegated 0), Finished (Delegated 0)],
      \<lparr>backendServers = initBackendList(''bla.mwat.de'' \<mapsto>
           \<lparr>destHost = ''http://192.168.192.236:8181'', destProxy = Some 0\<rparr>),
        proxies = [''http://192.168.192.236:8181''],
        errlog = [],
        stores = [''bla.mwat.de'', ''bla.mwat.de'']\<rparr>)"
    using main [THEN conjunct1] by (simp add: NewProxyHandler_def fins del: interleave.simps)
  from main [THEN conjunct2, rule_format, OF overlapping_run]
  have any: "length (proxies
        \<lparr>backendServers = initBackendList(''bla.mwat.de'' \<mapsto>
           \<lparr>destHost = ''http://192.168.192.236:8181'', destProxy = Some 1\<rparr>),
        proxies = [''http://192.168.192.236:8181'', ''http://192.168.192.236:8181''],
        errlog = [],
        stores = [''bla.mwat.de'', ''bla.mwat.de'']\<rparr>)
       \<le> length (proxies (NewProxyHandler :: string world)) + 2"
    by blast
  from main [THEN conjunct2, rule_format, OF overlapping_run]
  have "\<exists>p. Delegated 1 = Delegated p \<and> length (proxies (NewProxyHandler :: string world)) \<le> p
      \<and> p < length (proxies
        \<lparr>backendServers = initBackendList(''bla.mwat.de'' \<mapsto>
           \<lparr>destHost = ''http://192.168.192.236:8181'', destProxy = Some 1\<rparr>),
        proxies = [''http://192.168.192.236:8181'', ''http://192.168.192.236:8181''],
        errlog = [],
        stores = [''bla.mwat.de'', ''bla.mwat.de'']\<rparr>)
      \<and> proxies
        \<lparr>backendServers = initBackendList(''bla.mwat.de'' \<mapsto>
           \<lparr>destHost = ''http://192.168.192.236:8181'', destProxy = Some 1\<rparr>),
        proxies = [''http://192.168.192.236:8181'', ''http://192.168.192.236:8181''],
        errlog = [],
        stores = [''bla.mwat.de'', ''bla.mwat.de'']\<rparr> ! p = ''http://192.168.192.236:8181''"
    by simp
  then have nth: "[''http://192.168.192.236:8181'', ''http://192.168.192.236:8181''] ! 1
      = ''http://192.168.192.236:8181''"
    by auto
  show ?thesis
    unfolding seq overlapping_run using any nth by (simp add: NewProxyHandler_def)
qed

section \<open>The TLS configuration of the secure listener\<close>

text \<open>
  The claim as written fails on the list of \<open>createServer443\<close>: after the five
  leading authenticated-encryption suites come legacy suites, and after those
  authenticated-encryption suites again; the last entry of the list is one.
\<close>

theorem cipher_suites_not_aead_first:
  "\<not> aeadFirstLegacyLast (cipherSuitesOf (createServer443 ()))
   \<and> last (cipherSuitesOf (createServer443 ())) = TLS_ECDHE_ECDSA_WITH_CHACHA20_POLY1305_SHA256
   \<and> aead TLS_ECDHE_ECDSA_WITH_CHACHA20_POLY1305_SHA256
   \<and> cipherSuitesOf (createServer443 ()) ! 13 = TLS_ECDHE_ECDSA_WITH_RC4_128_SHA
   \<and> cipherSuitesOf (createServer443 ()) ! 14 = TLS_RSA_WITH_AES_256_GCM_SHA384"
  by (simp add: aeadFirstLegacyLast_def cipherSuitesOf_def createServer443_def createServ_def)

text \<open>
  Claim C6, as the code has it.  The TLS configuration of \<open>createServer443\<close>
  sets the minimum version TLS 1.0 and the maximum version TLS 1.2 and an
  explicit list of 22 different cipher suites, preferred in the server's order.
  The list is ordered by key exchange before bulk cipher:
  \<^item> positions 1 to 5: five ECDHE suites with authenticated encryption
    (ChaCha20-Poly1305 or AES-GCM);
  \<^item> positions 6 to 14: nine ECDHE legacy suites (CBC, 3DES, RC4);
  \<^item> positions 15 and 16: the two suites with RSA key exchange and AES-GCM,
    \<open>TLS_RSA_WITH_AES_256_GCM_SHA384\<close> and \<open>TLS_RSA_WITH_AES_128_GCM_SHA256\<close>;
  \<^item> positions 17 to 21: five legacy suites with RSA key exchange;
  \<^item> position 22, the last: \<open>TLS_ECDHE_ECDSA_WITH_CHACHA20_POLY1305_SHA256\<close>,
    an ECDHE suite with authenticated encryption.

  So every legacy suite comes after the five leading suites, and the legacy
  suites are not all last.
\<close>

theorem tls_configuration:
  "\<exists>cfg. TLSConfig (createServer443 aHandler) = Some cfg
     \<and> MinVersion cfg = VersionTLS10 \<and> MaxVersion cfg = VersionTLS12
     \<and> versionCode (MinVersion cfg) \<le> versionCode (MaxVersion cfg)
     \<and> PreferServerCipherSuites cfg
     \<and> length (CipherSuites cfg) = 22 \<and> distinct (CipherSuites cfg)
     \<and> list_all aead (take 5 (CipherSuites cfg))
     \<and> list_all ecdhe (take 5 (CipherSuites cfg))
     \<and> filter legacy (CipherSuites cfg) = filter legacy (drop 5 (CipherSuites cfg))
     \<and> list_all legacy (take 9 (drop 5 (CipherSuites cfg)))
     \<and> list_all ecdhe (take 9 (drop 5 (CipherSuites cfg)))
     \<and> CipherSuites cfg ! 14 = TLS_RSA_WITH_AES_256_GCM_SHA384
     \<and> CipherSuites cfg ! 15 = TLS_RSA_WITH_AES_128_GCM_SHA256
     \<and> list_all legacy (take 5 (drop 16 (CipherSuites cfg)))
     \<and> last (CipherSuites cfg) = TLS_ECDHE_ECDSA_WITH_CHACHA20_POLY1305_SHA256
     \<and> map kx (CipherSuites cfg) =
         [ECDHE_RSA, ECDHE_ECDSA, ECDHE_RSA, ECDHE_ECDSA, ECDHE_RSA,
          ECDHE_RSA, ECDHE_ECDSA, ECDHE_RSA, ECDHE_RSA, ECDHE_RSA, ECDHE_RSA,
          ECDHE_ECDSA, ECDHE_ECDSA, ECDHE_ECDSA,
          RSA, RSA,
          RSA, RSA, RSA, RSA, RSA,
          ECDHE_ECDSA]
     \<and> map bulk (CipherSuites cfg) =
         [CHACHA20_POLY1305, AES_GCM, AES_GCM, AES_GCM, AES_GCM,
          AES_CBC, AES_CBC, AES_CBC, AES_CBC, TripleDES_EDE_CBC, RC4,
          AES_CBC, AES_CBC, RC4,
          AES_GCM, AES_GCM,
          AES_CBC, AES_CBC, AES_CBC, TripleDES_EDE_CBC, RC4,
          CHACHA20_POLY1305]
     \<and> map aead (CipherSuites cfg) =
         [True, True, True, True, True,
          False, False, False, False, False, False, False, False, False,
          True, True,
          False, False, False, False, False,
          True]
     \<and> map legacy (CipherSuites cfg) = map Not (map aead (CipherSuites cfg))"
  by (simp add: createServer443_def createServ_def)

section \<open>An error of Shutdown\<close>

text \<open>
  Claim C7.  When \<open>aServer.Shutdown\<close> returns an error, the goroutine calls
  \<open>exit\<close> with the program's name and the error: the message goes to
  \<open>apachelogger.Err\<close> and to the \<open>log\<close> package, as the last entry of each,
  and the process ends with status 1.
\<close>

theorem shutdown_error_logged_and_exit:
  "exitStatus (signalHandler gMe signal (Some err) p) = Some 1
   \<and> last (apacheErr (signalHandler gMe signal (Some err) p))
       = (''ReProx/main'', gMe @ '': '' @ err)
   \<and> last (stdLog (signalHandler gMe signal (Some err) p)) = gMe @ '': '' @ err"
  by (simp add: signalHandler_def exit_def Let_def)

section \<open>From the signal to the end of the process\<close>

text \<open>
  The goroutine of \<open>setupSignals\<close> as a whole is \<open>signalHandler\<close>: logging on
  receipt, then \<open>exit\<close> when \<open>Shutdown\<close> has returned an error.
\<close>

lemma signalHandler_then_exit:
  "signalHandler gMe sg (Some err) p = exit (gMe @ '': '' @ err) (signalHandler gMe sg None p)"
  by (simp add: signalHandler_def Let_def)

text \<open>
  The listener leaves \<open>Listening\<close> only when the goroutine of \<open>setupSignals\<close>
  takes a signal from the channel, and only \<open>SIGINT\<close> and \<open>SIGTERM\<close> get there.
\<close>

lemma drain_starts_by_signal_only:
  assumes "phase s = Listening" and "servePc s = InListenAndServe" and "sigPc s = AwaitSignal"
    and "phase (react gMe ev s) \<noteq> Listening"
  shows "ev = RunSignalGoroutine \<and> sigChan s \<noteq> [] \<and> phase (react gMe ev s) = Draining"
  using assms
  by (cases ev)
    (auto simp: signalGoroutine_def mainGoroutine_def receiveSignal_def shutdownReturns_def
      split: if_splits signalPc.splits list.splits option.splits)

text \<open>
  When the deadline has passed with requests in flight, \<open>Shutdown\<close> returns the
  context's error and the goroutine ends the process.
\<close>

lemma deadline_passed_exit:
  assumes "exitStatus (proc s) = None" and "sigPc s = InShutdown deadline"
    and "0 < inflight s" and "deadline \<le> now s"
  shows "exitStatus (proc (react gMe RunSignalGoroutine s)) = Some 1
         \<and> inflight (react gMe RunSignalGoroutine s) = inflight s"
  using assms by (simp add: signalGoroutine_def shutdownReturns_def exit_def)

text \<open>
  Once \<open>ListenAndServe\<close> has returned, the goroutine of \<open>main\<close> ends the process
  as soon as it runs; neither the requests in flight nor the time are looked at.
\<close>

lemma main_exit_any_time:
  assumes "exitStatus (proc s) = None" and "servePc s = ListenAndServeReturned err"
  shows "react gMe RunServeGoroutine s =
           s\<lparr>proc := exit (gMe @ '': '' @ err) (proc s), phase := Closed\<rparr>"
  using assms by (simp add: mainGoroutine_def)

text \<open>
  Claim C5.  The claim: the server starts to drain only on an interrupt or
  terminate signal, and the drain ends when all requests in flight have finished
  or when ten seconds have passed, whichever comes first.  On the code the drain
  does start only on these signals and \<open>Shutdown\<close> is given ten seconds, but
  the process does not wait for either: the call of \<open>Shutdown\<close> makes
  \<open>ListenAndServe\<close> return, and \<open>main\<close> passes what it returns to \<open>exit\<close>.
  One request is accepted, \<open>SIGINT\<close> arrives, the goroutine of
  \<open>setupSignals\<close> calls \<open>Shutdown\<close>, the goroutine of \<open>main\<close> runs: the
  process has ended with status 1 and the message \<open>http: Server closed\<close>, the
  request is still in flight, no time has passed and the deadline lies ten
  seconds ahead.
\<close>

theorem exit_before_drain_ends:
  "exitStatus (proc (runEvents ''reprox''
      [Accept, Deliver SIGINT, RunSignalGoroutine, RunServeGoroutine] (listening ''reprox'')))
     = Some 1
   \<and> inflight (runEvents ''reprox''
      [Accept, Deliver SIGINT, RunSignalGoroutine, RunServeGoroutine] (listening ''reprox'')) = 1
   \<and> now (runEvents ''reprox''
      [Accept, Deliver SIGINT, RunSignalGoroutine, RunServeGoroutine] (listening ''reprox'')) = 0
   \<and> sigPc (runEvents ''reprox''
      [Accept, Deliver SIGINT, RunSignalGoroutine, RunServeGoroutine] (listening ''reprox''))
     = InShutdown 10000000000
   \<and> stdLog (proc (runEvents ''reprox''
      [Accept, Deliver SIGINT, RunSignalGoroutine, RunServeGoroutine] (listening ''reprox'')))
     = [''reprox listening HTTP at :80'',
        ''reprox captured '' @ [CHR 0x27] @ ''interrupt'' @ [CHR 0x27]
          @ '', stopping program and exiting ...'',
        ''reprox: http: Server closed'']"
  by (simp add: listening_def signalGoroutine_def mainGoroutine_def receiveSignal_def
      signalHandler_def exit_def Second_def Let_def)


end
